theory Spec2Isabelle
  imports Main
begin

section \<open>JavaScript values\<close>

text \<open>
  The values a document field or a filter's comparison value can hold. Numbers are the
  integers (exactly representable doubles) and \<open>NaN\<close>; fractions and infinities are outside
  the model. A native \<open>Date\<close> carries its time value in milliseconds, \<open>None\<close> for an invalid
  date. \<open>TStamp t\<close> is the mock Timestamp object
  \<open>{_seconds, _nanoseconds, toDate: () => date, toMillis}\<close>, the only object of the
  repository with a callable \<open>toDate\<close>; \<open>t\<close> is the time value of the \<open>Date\<close> that its
  \<open>toDate()\<close> returns. \<open>Obj\<close> is a plain object: its own properties in enumeration order,
  none of them a function.
\<close>

datatype jsval =
    Undefined
  | Null
  | Bool bool
  | Num int
  | NaN
  | Str string
  | DateV "int option"
  | TStamp "int option"
  | Arr "jsval list"
  | Obj "(string \<times> jsval) list"

type_synonym fields = "(string \<times> jsval) list"

text \<open>
  What the JavaScript engine decides and the repository does not: \<open>Number(s)\<close> on a string
  (\<open>None\<close> is \<open>NaN\<close>), \<open>new Date(s).getTime()\<close> on a string (\<open>None\<close> is \<open>NaN\<close>), and the
  rendering of a \<open>Date\<close> as a string. Every definition below takes them as a parameter.
\<close>

record host =
  number_of_string :: "string \<Rightarrow> int option"
  date_parse :: "string \<Rightarrow> int option"
  date_to_string :: "int option \<Rightarrow> string"

subsection \<open>Truthiness, conversions, comparison\<close>

fun js_truthy :: "jsval \<Rightarrow> bool" where
  "js_truthy Undefined = False"
| "js_truthy Null = False"
| "js_truthy (Bool b) = b"
| "js_truthy (Num n) = (n \<noteq> 0)"
| "js_truthy NaN = False"
| "js_truthy (Str s) = (s \<noteq> [])"
| "js_truthy (DateV t) = True"
| "js_truthy (TStamp t) = True"
| "js_truthy (Arr xs) = True"
| "js_truthy (Obj fs) = True"

definition digit_char :: "nat \<Rightarrow> char" where
  "digit_char d = char_of (48 + d)"

fun nat_to_dec :: "nat \<Rightarrow> string" where
  "nat_to_dec n =
     (if n < 10 then [digit_char n] else nat_to_dec (n div 10) @ [digit_char (n mod 10)])"

declare nat_to_dec.simps [simp del]

definition int_to_dec :: "int \<Rightarrow> string" where
  "int_to_dec i = (if i < 0 then CHR ''-'' # nat_to_dec (nat (- i)) else nat_to_dec (nat i))"

fun join_with :: "string \<Rightarrow> string list \<Rightarrow> string" where
  "join_with sep [] = []"
| "join_with sep [x] = x"
| "join_with sep (x # y # ys) = x @ sep @ join_with sep (y # ys)"

text \<open>
  \<open>ToString\<close>, as a template literal and a property key apply it. An array renders as its
  elements joined by a comma, \<open>null\<close> and \<open>undefined\<close> elements as the empty string.
\<close>

fun to_string :: "host \<Rightarrow> jsval \<Rightarrow> string" where
  "to_string h Undefined = ''undefined''"
| "to_string h Null = ''null''"
| "to_string h (Bool b) = (if b then ''true'' else ''false'')"
| "to_string h (Num n) = int_to_dec n"
| "to_string h NaN = ''NaN''"
| "to_string h (Str s) = s"
| "to_string h (DateV t) = date_to_string h t"
| "to_string h (TStamp t) = ''[object Object]''"
| "to_string h (Obj fs) = ''[object Object]''"
| "to_string h (Arr xs) =
     join_with '',''
       (map (\<lambda>x. if x = Undefined then [] else if x = Null then [] else to_string h x) xs)"

text \<open>\<open>ToPrimitive\<close> with hint number: a \<open>Date\<close> gives its time value, every other object
  its string.\<close>

fun to_primitive :: "host \<Rightarrow> jsval \<Rightarrow> jsval" where
  "to_primitive h (DateV t) = (case t of None \<Rightarrow> NaN | Some n \<Rightarrow> Num n)"
| "to_primitive h (TStamp t) = Str (to_string h (TStamp t))"
| "to_primitive h (Obj fs) = Str (to_string h (Obj fs))"
| "to_primitive h (Arr xs) = Str (to_string h (Arr xs))"
| "to_primitive h v = v"

text \<open>\<open>ToNumber\<close> of a primitive; \<open>None\<close> is \<open>NaN\<close>.\<close>

fun to_number :: "host \<Rightarrow> jsval \<Rightarrow> int option" where
  "to_number h Undefined = None"
| "to_number h Null = Some 0"
| "to_number h (Bool b) = Some (if b then 1 else 0)"
| "to_number h (Num n) = Some n"
| "to_number h NaN = None"
| "to_number h (Str s) = number_of_string h s"
| "to_number h v = None"

text \<open>Strings compare by code units, lexicographically.\<close>

fun str_lt :: "string \<Rightarrow> string \<Rightarrow> bool" where
  "str_lt [] [] = False"
| "str_lt [] (y # ys) = True"
| "str_lt (x # xs) [] = False"
| "str_lt (x # xs) (y # ys) =
     (if (of_char x :: nat) < of_char y then True
      else if (of_char y :: nat) < of_char x then False
      else str_lt xs ys)"

text \<open>The relational operators \<open><\<close> and \<open><=\<close>; \<open>a > b\<close> is \<open>js_lt b a\<close> and
  \<open>a >= b\<close> is \<open>js_le b a\<close>. A comparison with \<open>NaN\<close> is false.\<close>

definition js_lt :: "host \<Rightarrow> jsval \<Rightarrow> jsval \<Rightarrow> bool" where
  "js_lt h a b =
     (case (to_primitive h a, to_primitive h b) of
        (Str s, Str t) \<Rightarrow> str_lt s t
      | (pa, pb) \<Rightarrow>
          (case (to_number h pa, to_number h pb) of
             (Some x, Some y) \<Rightarrow> x < y
           | _ \<Rightarrow> False))"

definition js_le :: "host \<Rightarrow> jsval \<Rightarrow> jsval \<Rightarrow> bool" where
  "js_le h a b =
     (case (to_primitive h a, to_primitive h b) of
        (Str s, Str t) \<Rightarrow> \<not> str_lt t s
      | (pa, pb) \<Rightarrow>
          (case (to_number h pa, to_number h pb) of
             (Some x, Some y) \<Rightarrow> x \<le> y
           | _ \<Rightarrow> False))"

text \<open>
  Strict equality \<open>===\<close>. Primitives compare by value and \<open>NaN\<close> equals nothing. Objects
  (dates, Timestamps, arrays, plain objects) compare by reference; the model has no
  references and takes a value read from the store and a value handed to \<open>where\<close> to be
  two objects, so they are never strictly equal.
\<close>

fun js_strict_eq :: "jsval \<Rightarrow> jsval \<Rightarrow> bool" where
  "js_strict_eq Undefined Undefined = True"
| "js_strict_eq Null Null = True"
| "js_strict_eq (Bool a) (Bool b) = (a = b)"
| "js_strict_eq (Num a) (Num b) = (a = b)"
| "js_strict_eq (Str a) (Str b) = (a = b)"
| "js_strict_eq a b = False"

text \<open>\<open>Array.prototype.includes\<close> compares with SameValueZero: as \<open>===\<close>, but \<open>NaN\<close>
  is found.\<close>

definition same_value_zero :: "jsval \<Rightarrow> jsval \<Rightarrow> bool" where
  "same_value_zero a b = (if a = NaN then b = NaN else js_strict_eq a b)"

definition js_includes :: "jsval list \<Rightarrow> jsval \<Rightarrow> bool" where
  "js_includes xs v = list_ex (\<lambda>x. same_value_zero x v) xs"

subsection \<open>Objects, \<open>Map\<close>s and \<open>split\<close>\<close>

text \<open>
  A plain object is the list of its own properties in the order \<open>Object.entries\<close> and a
  spread enumerate them: the array-index keys (canonical decimal strings below
  \<open>2^32 - 1\<close>) ascending, then the other keys in insertion order.
\<close>

definition is_digit :: "char \<Rightarrow> bool" where
  "is_digit c = (48 \<le> (of_char c :: nat) \<and> (of_char c :: nat) \<le> 57)"

definition dec_value :: "string \<Rightarrow> nat" where
  "dec_value s = fold (\<lambda>c n. n * 10 + ((of_char c :: nat) - 48)) s 0"

definition is_array_index :: "string \<Rightarrow> bool" where
  "is_array_index s =
     (case s of
        [] \<Rightarrow> False
      | c # cs \<Rightarrow>
          list_all is_digit s \<and> (if c = CHR ''0'' then cs = [] else True) \<and>
          dec_value s < 4294967295)"

fun obj_replace :: "string \<Rightarrow> 'v \<Rightarrow> (string \<times> 'v) list \<Rightarrow> (string \<times> 'v) list" where
  "obj_replace k v [] = []"
| "obj_replace k v ((k', v') # r) =
     (if k' = k then (k, v) # r else (k', v') # obj_replace k v r)"

fun obj_insert_index :: "string \<Rightarrow> 'v \<Rightarrow> (string \<times> 'v) list \<Rightarrow> (string \<times> 'v) list" where
  "obj_insert_index k v [] = [(k, v)]"
| "obj_insert_index k v ((k', v') # r) =
     (if is_array_index k' \<and> dec_value k' < dec_value k
      then (k', v') # obj_insert_index k v r
      else (k, v) # (k', v') # r)"

text \<open>The assignment \<open>o[k] = v\<close>.\<close>

definition obj_put :: "string \<Rightarrow> 'v \<Rightarrow> (string \<times> 'v) list \<Rightarrow> (string \<times> 'v) list" where
  "obj_put k v ob =
     (if k \<in> set (map fst ob) then obj_replace k v ob
      else if is_array_index k then obj_insert_index k v ob
      else ob @ [(k, v)])"

text \<open>The statement \<open>delete o[k]\<close>.\<close>

definition obj_delete :: "string \<Rightarrow> (string \<times> 'v) list \<Rightarrow> (string \<times> 'v) list" where
  "obj_delete k ob = filter (\<lambda>p. fst p \<noteq> k) ob"

text \<open>\<open>Object.assign(target, source)\<close>; the spread \<open>{...a, ...b}\<close> is
  \<open>obj_assign (obj_assign [] a) b\<close>.\<close>

definition obj_assign :: "(string \<times> 'v) list \<Rightarrow> (string \<times> 'v) list \<Rightarrow> (string \<times> 'v) list" where
  "obj_assign target source = fold (\<lambda>p. obj_put (fst p) (snd p)) source target"

text \<open>Reading \<open>o[k]\<close>: an absent property is \<open>undefined\<close>. Only own properties are
  modelled.\<close>

definition field_get :: "string \<Rightarrow> fields \<Rightarrow> jsval" where
  "field_get k fs = (case map_of fs k of None \<Rightarrow> Undefined | Some v \<Rightarrow> v)"

text \<open>\<open>Map.prototype.set\<close>: an existing key keeps its place, a new one goes last.\<close>

definition map_put :: "string \<Rightarrow> 'v \<Rightarrow> (string \<times> 'v) list \<Rightarrow> (string \<times> 'v) list" where
  "map_put k v m = (if k \<in> set (map fst m) then obj_replace k v m else m @ [(k, v)])"

text \<open>\<open>s.split(sep)\<close> for a one-character separator: the empty string gives one empty
  part.\<close>

fun js_split :: "char \<Rightarrow> string \<Rightarrow> string list" where
  "js_split sep [] = [[]]"
| "js_split sep (c # cs) =
     (if c = sep then [] # js_split sep cs
      else (case js_split sep cs of
              [] \<Rightarrow> [[c]]
            | p # ps \<Rightarrow> (c # p) # ps))"

text \<open>\<open>xs[i]\<close>: out of range is \<open>undefined\<close>, here \<open>None\<close>.\<close>

fun nth_opt :: "'a list \<Rightarrow> nat \<Rightarrow> 'a option" where
  "nth_opt [] i = None"
| "nth_opt (x # xs) 0 = Some x"
| "nth_opt (x # xs) (Suc i) = nth_opt xs i"

text \<open>A string or \<open>undefined\<close> used as a property key, and tested for truthiness.\<close>

definition key_of :: "string option \<Rightarrow> string" where
  "key_of k = (case k of None \<Rightarrow> ''undefined'' | Some s \<Rightarrow> s)"

definition str_truthy :: "string option \<Rightarrow> bool" where
  "str_truthy k = (case k of None \<Rightarrow> False | Some s \<Rightarrow> s \<noteq> [])"

section \<open>The mock instance\<close>

text \<open>
  \<open>createFirestoreMock\<close> closes over \<open>dbData\<close>, the one \<open>mockBatch\<close> with its
  \<open>_operations\<close>, and the two memo tables \<open>collectionMocks\<close> and \<open>docMocks\<close>. A handle
  is an object: \<open>h_ref\<close> and \<open>c_ref\<close> are the identities of the objects, drawn from
  \<open>next_ref\<close> when the object is created, so two handles are the same instance exactly
  when their \<open>h_ref\<close> agree. A document is typed \<open>DocumentData\<close>, an object of fields.
  The \<open>jest.fn\<close> wrappers only record calls and are left out.
\<close>

record doc_handle =
  h_ref :: nat
  h_id :: jsval
  h_collectionPath :: string
  h_path :: string

record coll_mock =
  c_ref :: nat
  c_path :: string

record set_options =
  opt_merge :: "bool option"

datatype batch_op =
    OpSet doc_handle fields "set_options option"
  | OpUpdate doc_handle fields
  | OpDelete doc_handle

type_synonym collection_data = "(string \<times> fields) list"

record mock =
  dbData :: "(string \<times> collection_data) list"
  operations :: "batch_op list"
  collectionMocks :: "(string \<times> coll_mock) list"
  docMocks :: "(string \<times> doc_handle) list"
  next_ref :: nat

datatype error = Error string

text \<open>Every asynchronous operation returns \<open>Promise.resolve(...)\<close>; none rejects.\<close>

datatype 'a promise = Resolved 'a

text \<open>The read \<open>dbData[collectionPath]?.[docId]\<close>.\<close>

definition store_doc :: "mock \<Rightarrow> string \<Rightarrow> string \<Rightarrow> fields option" where
  "store_doc s collectionPath docId =
     (case map_of (dbData s) collectionPath of
        None \<Rightarrow> None
      | Some coll \<Rightarrow> map_of coll docId)"

text \<open>\<open>if (!dbData[collectionPath]) dbData[collectionPath] = {}\<close>.\<close>

definition ensure_collection :: "string \<Rightarrow> mock \<Rightarrow> mock" where
  "ensure_collection collectionPath s =
     (case map_of (dbData s) collectionPath of
        None \<Rightarrow> s\<lparr>dbData := obj_put collectionPath [] (dbData s)\<rparr>
      | Some coll \<Rightarrow> s)"

text \<open>\<open>dbData[collectionPath][docId] = data\<close> and \<open>delete dbData[collectionPath][docId]\<close>;
  both are reached only where the collection exists.\<close>

definition write_doc :: "string \<Rightarrow> string \<Rightarrow> fields \<Rightarrow> mock \<Rightarrow> mock" where
  "write_doc collectionPath docId data s =
     (case map_of (dbData s) collectionPath of
        None \<Rightarrow> s
      | Some coll \<Rightarrow>
          s\<lparr>dbData := obj_put collectionPath (obj_put docId data coll) (dbData s)\<rparr>)"

definition delete_doc :: "string \<Rightarrow> string \<Rightarrow> mock \<Rightarrow> mock" where
  "delete_doc collectionPath docId s =
     (case map_of (dbData s) collectionPath of
        None \<Rightarrow> s
      | Some coll \<Rightarrow>
          s\<lparr>dbData := obj_put collectionPath (obj_delete docId coll) (dbData s)\<rparr>)"

text \<open>\<open>options?.merge\<close> as a condition.\<close>

definition merge_on :: "set_options option \<Rightarrow> bool" where
  "merge_on options =
     (case options of
        None \<Rightarrow> False
      | Some opts \<Rightarrow> (case opt_merge opts of None \<Rightarrow> False | Some b \<Rightarrow> b))"

subsection \<open>The memo tables\<close>

definition getDocMock :: "host \<Rightarrow> string \<Rightarrow> jsval \<Rightarrow> mock \<Rightarrow> doc_handle \<times> mock" where
  "getDocMock h collectionPath docId s =
     (let path = collectionPath @ ''/'' @ to_string h docId in
      case map_of (docMocks s) path of
        Some found \<Rightarrow> (found, s)
      | None \<Rightarrow>
          (let newMock = \<lparr>h_ref = next_ref s, h_id = docId,
                          h_collectionPath = collectionPath, h_path = path\<rparr>
           in (newMock,
               s\<lparr>docMocks := map_put path newMock (docMocks s),
                 next_ref := Suc (next_ref s)\<rparr>)))"

definition getCollectionMock :: "string \<Rightarrow> mock \<Rightarrow> coll_mock \<times> mock" where
  "getCollectionMock collectionPath s =
     (case map_of (collectionMocks s) collectionPath of
        Some found \<Rightarrow> (found, s)
      | None \<Rightarrow>
          (let newMock = \<lparr>c_ref = next_ref s, c_path = collectionPath\<rparr>
           in (newMock,
               s\<lparr>collectionMocks := map_put collectionPath newMock (collectionMocks s),
                 next_ref := Suc (next_ref s)\<rparr>)))"

subsection \<open>The document handle\<close>

text \<open>The handle's methods close over the \<open>collectionPath\<close> and \<open>docId\<close> it was created
  with; \<open>docId\<close> is turned into a string where it is used as a property key.\<close>

definition doc_key :: "host \<Rightarrow> doc_handle \<Rightarrow> string" where
  "doc_key h dh = to_string h (h_id dh)"

text \<open>The snapshot of \<open>get()\<close>: \<open>exists\<close> is computed by \<open>get\<close>; \<open>data\<close> is the
  closure \<open>() => dbData[collectionPath]?.[docId]\<close>, kept as the two variables it closes
  over and run by \<open>snap_data\<close> on the instance as it is when \<open>data()\<close> is called.\<close>

record doc_snapshot =
  snap_id :: jsval
  snap_exists :: bool
  snap_ref :: doc_handle
  snap_collectionPath :: string
  snap_docId :: string

definition snap_data :: "doc_snapshot \<Rightarrow> mock \<Rightarrow> fields option" where
  "snap_data snap s = store_doc s (snap_collectionPath snap) (snap_docId snap)"

definition handle_get :: "host \<Rightarrow> doc_handle \<Rightarrow> mock \<Rightarrow> doc_snapshot promise \<times> mock" where
  "handle_get h dh s =
     (let collectionPath = h_collectionPath dh;
          docId = doc_key h dh;
          (ref, s') = getDocMock h collectionPath (h_id dh) s
      in (Resolved \<lparr>snap_id = h_id dh,
                    snap_exists = (store_doc s collectionPath docId \<noteq> None),
                    snap_ref = ref,
                    snap_collectionPath = collectionPath,
                    snap_docId = docId\<rparr>, s'))"

definition handle_set ::
  "host \<Rightarrow> doc_handle \<Rightarrow> fields \<Rightarrow> set_options option \<Rightarrow> mock \<Rightarrow> unit promise \<times> mock" where
  "handle_set h dh data options s =
     (let collectionPath = h_collectionPath dh;
          docId = doc_key h dh;
          s1 = ensure_collection collectionPath s
      in (Resolved (),
          (if merge_on options then
             (case store_doc s1 collectionPath docId of
                Some existing \<Rightarrow>
                  write_doc collectionPath docId (obj_assign (obj_assign [] existing) data) s1
              | None \<Rightarrow> write_doc collectionPath docId data s1)
           else write_doc collectionPath docId data s1)))"

definition handle_update :: "host \<Rightarrow> doc_handle \<Rightarrow> fields \<Rightarrow> mock \<Rightarrow> unit promise \<times> mock" where
  "handle_update h dh data s =
     (let collectionPath = h_collectionPath dh;
          docId = doc_key h dh
      in (Resolved (),
          (case store_doc s collectionPath docId of
             Some existing \<Rightarrow>
               write_doc collectionPath docId (obj_assign (obj_assign [] existing) data) s
           | None \<Rightarrow> s)))"

definition handle_delete :: "host \<Rightarrow> doc_handle \<Rightarrow> mock \<Rightarrow> unit promise \<times> mock" where
  "handle_delete h dh s =
     (let collectionPath = h_collectionPath dh;
          docId = doc_key h dh
      in (Resolved (),
          (case store_doc s collectionPath docId of
             Some existing \<Rightarrow> delete_doc collectionPath docId s
           | None \<Rightarrow> s)))"

definition handle_collection :: "doc_handle \<Rightarrow> string \<Rightarrow> mock \<Rightarrow> coll_mock \<times> mock" where
  "handle_collection dh subCollectionPath s =
     getCollectionMock (h_path dh @ ''/'' @ subCollectionPath) s"

subsection \<open>The batch\<close>

definition batch_set :: "doc_handle \<Rightarrow> fields \<Rightarrow> set_options option \<Rightarrow> mock \<Rightarrow> mock" where
  "batch_set docRef data options s = s\<lparr>operations := operations s @ [OpSet docRef data options]\<rparr>"

definition batch_update :: "doc_handle \<Rightarrow> fields \<Rightarrow> mock \<Rightarrow> mock" where
  "batch_update docRef data s = s\<lparr>operations := operations s @ [OpUpdate docRef data]\<rparr>"

definition batch_delete :: "doc_handle \<Rightarrow> mock \<Rightarrow> mock" where
  "batch_delete docRef s = s\<lparr>operations := operations s @ [OpDelete docRef]\<rparr>"

fun op_ref :: "batch_op \<Rightarrow> doc_handle" where
  "op_ref (OpSet r data options) = r"
| "op_ref (OpUpdate r data) = r"
| "op_ref (OpDelete r) = r"

text \<open>One step of the \<open>forEach\<close> in \<open>commit\<close>: the address is the first two parts of
  the handle's \<open>path\<close>.\<close>

definition apply_op :: "batch_op \<Rightarrow> mock \<Rightarrow> mock" where
  "apply_op bop s =
     (let parts = js_split CHR ''/'' (h_path (op_ref bop));
          collectionPath = key_of (nth_opt parts 0);
          docId = key_of (nth_opt parts 1)
      in case bop of
           OpDelete r \<Rightarrow>
             (case store_doc s collectionPath docId of
                Some existing \<Rightarrow> delete_doc collectionPath docId s
              | None \<Rightarrow> s)
         | OpUpdate r data \<Rightarrow>
             (case store_doc s collectionPath docId of
                Some existing \<Rightarrow> write_doc collectionPath docId (obj_assign existing data) s
              | None \<Rightarrow> s)
         | OpSet r data options \<Rightarrow>
             (let s1 = ensure_collection collectionPath s in
              if merge_on options then
                write_doc collectionPath docId
                  (obj_assign
                     (obj_assign []
                        (case store_doc s1 collectionPath docId of
                           Some existing \<Rightarrow> existing
                         | None \<Rightarrow> []))
                     data) s1
              else write_doc collectionPath docId data s1))"

definition commit :: "mock \<Rightarrow> unit promise \<times> mock" where
  "commit s = (Resolved (), (fold apply_op (operations s) s)\<lparr>operations := []\<rparr>)"

subsection \<open>The instance's own methods\<close>

definition collection :: "string \<Rightarrow> mock \<Rightarrow> coll_mock \<times> mock" where
  "collection path s = getCollectionMock path s"

text \<open>\<open>doc(path)\<close> throws before it creates anything; the throw is \<open>Inl\<close>.\<close>

definition doc :: "host \<Rightarrow> string \<Rightarrow> mock \<Rightarrow> error + doc_handle \<times> mock" where
  "doc h path s =
     (let parts = js_split CHR ''/'' path;
          collectionPath = nth_opt parts 0;
          docId = nth_opt parts 1
      in if str_truthy collectionPath \<and> str_truthy docId
         then Inr (getDocMock h (key_of collectionPath) (Str (key_of docId)) s)
         else Inl (Error (''Invalid document path provided to mock: '' @ path)))"

subsection \<open>The collection mock\<close>

text \<open>\<open>doc(docId?)\<close>: a missing or empty \<open>docId\<close> is replaced by
  \<open>`mock-id-${Math.random()}`\<close>; \<open>rnd\<close> is the string \<open>Math.random()\<close> renders to in
  this call.\<close>

definition coll_doc ::
  "host \<Rightarrow> string \<Rightarrow> coll_mock \<Rightarrow> string option \<Rightarrow> mock \<Rightarrow> doc_handle \<times> mock" where
  "coll_doc h rnd cm docId s =
     (let ident = (if str_truthy docId then key_of docId else ''mock-id-'' @ rnd)
      in getDocMock h (c_path cm) (Str ident) s)"

definition coll_add ::
  "host \<Rightarrow> string \<Rightarrow> coll_mock \<Rightarrow> fields \<Rightarrow> mock \<Rightarrow> doc_handle promise \<times> mock" where
  "coll_add h rnd cm data s =
     (let newId = ''new-doc-'' @ rnd;
          s1 = write_doc (c_path cm) newId data (ensure_collection (c_path cm) s);
          (newDocRef, s2) = getDocMock h (c_path cm) (Str newId) s1
      in (Resolved newDocRef, s2))"

section \<open>The query chain\<close>

record filter_dir =
  f_field :: string
  f_op :: string
  f_value :: jsval

record order_dir =
  o_field :: string
  o_direction :: string

text \<open>The options of \<open>createQueryChain\<close> together with the \<open>collectionPath\<close> it closes
  over; \<open>filters\<close> defaults to the empty list, \<open>limit\<close> and \<open>orderBy\<close> to \<open>undefined\<close>.\<close>

record query =
  q_collectionPath :: string
  q_filters :: "filter_dir list"
  q_limit :: "int option"
  q_orderBy :: "order_dir option"

definition createQueryChain :: "coll_mock \<Rightarrow> query" where
  "createQueryChain cm =
     \<lparr>q_collectionPath = c_path cm, q_filters = [], q_limit = None, q_orderBy = None\<rparr>"

definition query_where :: "query \<Rightarrow> string \<Rightarrow> string \<Rightarrow> jsval \<Rightarrow> query" where
  "query_where q field opr v =
     q\<lparr>q_filters := q_filters q @ [\<lparr>f_field = field, f_op = opr, f_value = v\<rparr>]\<rparr>"

definition query_orderBy :: "query \<Rightarrow> string \<Rightarrow> string \<Rightarrow> query" where
  "query_orderBy q field direction =
     q\<lparr>q_orderBy := Some \<lparr>o_field = field, o_direction = direction\<rparr>\<rparr>"

definition query_limit :: "query \<Rightarrow> int \<Rightarrow> query" where
  "query_limit q limitValue = q\<lparr>q_limit := Some limitValue\<rparr>"

subsection \<open>Coercion to a date\<close>

text \<open>\<open>new Date(n)\<close> keeps the whole milliseconds of \<open>n\<close>, rounded toward zero, when
  they are within the range of a time value.\<close>

definition time_clip :: "int \<Rightarrow> int option" where
  "time_clip t = (if \<bar>t\<bar> \<le> 8640000000000000 then Some t else None)"

definition trunc_div :: "int \<Rightarrow> int \<Rightarrow> int" where
  "trunc_div a b = sgn a * (\<bar>a\<bar> div b)"

text \<open>\<open>new Date(val._seconds * 1000 + (val._nanoseconds || 0) / 1e6)\<close>, computed over
  millionths of a millisecond.\<close>

definition seconds_to_date :: "host \<Rightarrow> jsval \<Rightarrow> jsval \<Rightarrow> jsval" where
  "seconds_to_date h secs nanos =
     (case (to_number h (to_primitive h secs),
            to_number h (to_primitive h (if js_truthy nanos then nanos else Num 0))) of
        (Some sec, Some nano) \<Rightarrow> DateV (time_clip (trunc_div (sec * 1000 * 1000000 + nano) 1000000))
      | _ \<Rightarrow> DateV None)"

definition toDate :: "host \<Rightarrow> jsval \<Rightarrow> jsval" where
  "toDate h val =
     (if \<not> js_truthy val then val
      else case val of
             DateV t \<Rightarrow> val
           | TStamp t \<Rightarrow> DateV t
           | Obj fs \<Rightarrow>
               (if field_get ''_seconds'' fs \<noteq> Undefined
                then seconds_to_date h (field_get ''_seconds'' fs) (field_get ''_nanoseconds'' fs)
                else val)
           | Str str \<Rightarrow>
               (if number_of_string h str = None
                then (case date_parse h str of Some t \<Rightarrow> DateV (Some t) | None \<Rightarrow> val)
                else val)
           | _ \<Rightarrow> val)"

subsection \<open>One filter on one document\<close>

text \<open>Comparison of two \<open>getTime()\<close> results; \<open>None\<close> is \<open>NaN\<close>, which compares false.\<close>

definition time_eq :: "int option \<Rightarrow> int option \<Rightarrow> bool" where
  "time_eq a b = (case (a, b) of (Some x, Some y) \<Rightarrow> x = y | _ \<Rightarrow> False)"

definition time_lt :: "int option \<Rightarrow> int option \<Rightarrow> bool" where
  "time_lt a b = (case (a, b) of (Some x, Some y) \<Rightarrow> x < y | _ \<Rightarrow> False)"

definition time_le :: "int option \<Rightarrow> int option \<Rightarrow> bool" where
  "time_le a b = (case (a, b) of (Some x, Some y) \<Rightarrow> x \<le> y | _ \<Rightarrow> False)"

text \<open>The switch taken when both sides are dates.\<close>

definition date_switch :: "string \<Rightarrow> int option \<Rightarrow> int option \<Rightarrow> bool" where
  "date_switch opr a b =
     (if opr = ''=='' then time_eq a b
      else if opr = ''>='' then time_le b a
      else if opr = ''<='' then time_le a b
      else if opr = ''>'' then time_lt b a
      else if opr = ''<'' then time_lt a b
      else False)"

text \<open>The switch on the raw values; past its last case the callback returns \<open>false\<close>.\<close>

definition raw_switch :: "host \<Rightarrow> string \<Rightarrow> jsval \<Rightarrow> jsval \<Rightarrow> bool" where
  "raw_switch h opr docValue v =
     (if opr = ''=='' then js_strict_eq docValue v
      else if opr = ''!='' then \<not> js_strict_eq docValue v
      else if opr = ''>'' then js_lt h v docValue
      else if opr = ''>='' then js_le h v docValue
      else if opr = ''<'' then js_lt h docValue v
      else if opr = ''<='' then js_le h docValue v
      else if opr = ''in'' then (case v of Arr vs \<Rightarrow> js_includes vs docValue | _ \<Rightarrow> False)
      else if opr = ''not-in'' then \<not> (case v of Arr vs \<Rightarrow> js_includes vs docValue | _ \<Rightarrow> False)
      else if opr = ''array-contains''
        then (case docValue of Arr ds \<Rightarrow> js_includes ds v | _ \<Rightarrow> False)
      else if opr = ''array-contains-any''
        then (case docValue of
                Arr ds \<Rightarrow> (case v of Arr vs \<Rightarrow> list_ex (\<lambda>x. js_includes ds x) vs | _ \<Rightarrow> False)
              | _ \<Rightarrow> False)
      else False)"

definition filter_pred :: "host \<Rightarrow> filter_dir \<Rightarrow> fields \<Rightarrow> bool" where
  "filter_pred h f d =
     (let docValue = (if f_field f = ''__name__'' then field_get ''id'' d
                      else field_get (f_field f) d);
          comparableDocValue = toDate h docValue;
          comparableValue = toDate h (f_value f)
      in case comparableDocValue of
           DateV a \<Rightarrow>
             (case comparableValue of
                DateV b \<Rightarrow> date_switch (f_op f) a b
              | _ \<Rightarrow> raw_switch h (f_op f) docValue (f_value f))
         | _ \<Rightarrow> raw_switch h (f_op f) docValue (f_value f))"

subsection \<open>Ordering and truncation\<close>

definition compare_docs :: "host \<Rightarrow> order_dir \<Rightarrow> fields \<Rightarrow> fields \<Rightarrow> int" where
  "compare_docs h ob a b =
     (let valA = field_get (o_field ob) a;
          valB = field_get (o_field ob) b;
          order = (if o_direction ob = ''desc'' then - 1 else 1)
      in if js_lt h valA valB then - 1 * order
         else if js_lt h valB valA then 1 * order
         else 0)"

text \<open>\<open>Array.prototype.sort\<close> is stable. With a comparator that is a consistent ordering
  every engine returns what a stable insertion sort returns. With any other comparator, as
  when a document lacks the field of the ordering directive and compares false both ways
  with every other, the order is the engine's choice: the model keeps the insertion
  sort's, which need not be the order a given engine returns.\<close>

fun insert_sorted :: "('a \<Rightarrow> 'a \<Rightarrow> int) \<Rightarrow> 'a \<Rightarrow> 'a list \<Rightarrow> 'a list" where
  "insert_sorted cmp x [] = [x]"
| "insert_sorted cmp x (y # ys) =
     (if 0 < cmp x y then y # insert_sorted cmp x ys else x # y # ys)"

definition js_sort :: "('a \<Rightarrow> 'a \<Rightarrow> int) \<Rightarrow> 'a list \<Rightarrow> 'a list" where
  "js_sort cmp xs = foldr (insert_sorted cmp) xs []"

text \<open>\<open>xs.slice(0, n)\<close>: a negative \<open>n\<close> counts from the end.\<close>

definition js_slice0 :: "int \<Rightarrow> 'a list \<Rightarrow> 'a list" where
  "js_slice0 n xs = (if n < 0 then take (nat (int (length xs) + n)) xs else take (nat n) xs)"

subsection \<open>Evaluation\<close>

record query_entry =
  e_id :: jsval
  e_data :: fields
  e_exists :: bool
  e_ref :: doc_handle

record query_snapshot =
  qs_docs :: "query_entry list"
  qs_empty :: bool
  qs_size :: nat

text \<open>\<open>Object.entries(collectionData).map(([id, data]) => ({ id, ...data }))\<close>, on
  \<open>dbData[collectionPath] || {}\<close>.\<close>

definition load_docs :: "mock \<Rightarrow> string \<Rightarrow> fields list" where
  "load_docs s collectionPath =
     map (\<lambda>p. obj_assign [(''id'', Str (fst p))] (snd p))
       (case map_of (dbData s) collectionPath of None \<Rightarrow> [] | Some coll \<Rightarrow> coll)"

definition apply_filters :: "host \<Rightarrow> filter_dir list \<Rightarrow> fields list \<Rightarrow> fields list" where
  "apply_filters h fs allDocs = fold (\<lambda>f ds. filter (filter_pred h f) ds) fs allDocs"

definition apply_orderBy :: "host \<Rightarrow> order_dir option \<Rightarrow> fields list \<Rightarrow> fields list" where
  "apply_orderBy h ob allDocs =
     (case ob of None \<Rightarrow> allDocs | Some dir \<Rightarrow> js_sort (compare_docs h dir) allDocs)"

definition apply_limit :: "int option \<Rightarrow> fields list \<Rightarrow> fields list" where
  "apply_limit lim allDocs = (case lim of None \<Rightarrow> allDocs | Some n \<Rightarrow> js_slice0 n allDocs)"

text \<open>The final \<open>allDocs.map\<close>: \<open>const { id, ...rest } = doc\<close>, and the handle looked up
  or created for each entry in turn.\<close>

fun make_entries :: "host \<Rightarrow> string \<Rightarrow> fields list \<Rightarrow> mock \<Rightarrow> query_entry list \<times> mock" where
  "make_entries h collectionPath [] s = ([], s)"
| "make_entries h collectionPath (d # ds) s =
     (let ident = field_get ''id'' d;
          rest = obj_delete ''id'' d;
          (r, s1) = getDocMock h collectionPath ident s;
          (es, s2) = make_entries h collectionPath ds s1
      in (\<lparr>e_id = ident, e_data = rest, e_exists = True, e_ref = r\<rparr> # es, s2))"

definition query_get :: "host \<Rightarrow> query \<Rightarrow> mock \<Rightarrow> query_snapshot promise \<times> mock" where
  "query_get h q s =
     (let allDocs = apply_limit (q_limit q)
                      (apply_orderBy h (q_orderBy q)
                         (apply_filters h (q_filters q) (load_docs s (q_collectionPath q))));
          (docs, s') = make_entries h (q_collectionPath q) allDocs s
      in (Resolved \<lparr>qs_docs = docs, qs_empty = (length docs = 0), qs_size = length docs\<rparr>, s'))"

section \<open>Operators and example data\<close>

text \<open>The case labels of the switch on the raw values: the operators \<open>where\<close> knows.\<close>

definition recognized_ops :: "string list" where
  "recognized_ops = [''=='', ''!='', ''>'', ''>='', ''<'', ''<='', ''in'', ''not-in'',
     ''array-contains'', ''array-contains-any'']"

text \<open>A host on which no string is a number or a date. \<open>mock_of db\<close> is the instance as
  \<open>createFirestoreMock\<close> returns it: \<open>db\<close> is the store it keeps in \<open>dbData\<close> (its
  clone of the seed), the batch is empty and no handle has been handed out.\<close>

definition host0 :: host where
  "host0 = \<lparr>number_of_string = (\<lambda>s. None), date_parse = (\<lambda>s. None),
            date_to_string = (\<lambda>t. ''Invalid Date'')\<rparr>"

definition mock_of :: "(string \<times> collection_data) list \<Rightarrow> mock" where
  "mock_of db = \<lparr>dbData = db, operations = [], collectionMocks = [], docMocks = [], next_ref = 0\<rparr>"

definition users_db :: "(string \<times> collection_data) list" where
  "users_db =
     [(''users'',
       [(''user1'', [(''name'', Str ''Alice''), (''role'', Str ''admin''), (''age'', Num 30)]),
        (''user2'', [(''name'', Str ''Bob''), (''role'', Str ''user''), (''age'', Num 25)])])]"

text \<open>\<open>await\<close> on a promise.\<close>

fun awaited :: "'a promise \<Rightarrow> 'a" where
  "awaited (Resolved x) = x"

definition item1_handle :: doc_handle where
  "item1_handle = \<lparr>h_ref = 0, h_id = Str ''item1'', h_collectionPath = ''items'', h_path = ''items/item1''\<rparr>"

text \<open>The documents of the test of \<open>orderBy\<close> with \<open>limit\<close>, and of the tests of date
  comparison.\<close>

definition docA :: fields where "docA = [(''name'', Str ''A''), (''order'', Num 3)]"
definition docB :: fields where "docB = [(''name'', Str ''B''), (''order'', Num 1)]"
definition docC :: fields where "docC = [(''name'', Str ''C''), (''order'', Num 2)]"

definition items_db :: "(string \<times> collection_data) list" where
  "items_db = [(''items'', [(''item1'', docA), (''item2'', docB), (''item3'', docC)])]"

definition events_db :: "int \<Rightarrow> int \<Rightarrow> int \<Rightarrow> (string \<times> collection_data) list" where
  "events_db yesterday today tomorrow =
     [(''events'',
       [(''event-yesterday'', [(''eventDate'', TStamp (Some yesterday))]),
        (''event-today'', [(''eventDate'', TStamp (Some today))]),
        (''event-tomorrow'', [(''eventDate'', TStamp (Some tomorrow))])])]"

text \<open>A store with a subcollection, and a store with one document.\<close>

definition posts_db :: "(string \<times> collection_data) list" where
  "posts_db =
     [(''users'', [(''user1'', [(''name'', Str ''Alice'')])]),
      (''users/user1/posts'', [(''post1'', [(''title'', Str ''User1 Post 1'')])])]"

text \<open>\<open>collection('users').doc('user1').collection('posts').doc('post1')\<close> on a fresh
  instance over \<open>posts_db\<close>.\<close>

definition post1_by_descent :: "doc_handle \<times> mock" where
  "post1_by_descent =
     (let (users, s1) = collection ''users'' (mock_of posts_db);
          (user1, s2) = coll_doc host0 ''0.1'' users (Some ''user1'') s1;
          (posts, s3) = handle_collection user1 ''posts'' s2
      in coll_doc host0 ''0.2'' posts (Some ''post1'') s3)"

definition items_old :: "(string \<times> collection_data) list" where
  "items_old = [(''items'', [(''item1'', [(''name'', Str ''Old Name'')])])]"


text \<open>Every collection mock in the memo table was created for the path it is stored
  under. It holds of a fresh instance and every operation keeps it.\<close>

definition registry_ok :: "mock \<Rightarrow> bool" where
  "registry_ok s = list_all (\<lambda>p. c_path (snd p) = fst p) (collectionMocks s)"

text \<open>Every handle in the memo table is stored under its own path, and that path is made
  of the collection path and the id the handle closes over. It holds of a fresh instance
  and every operation keeps it.\<close>

definition handles_ok :: "host \<Rightarrow> mock \<Rightarrow> bool" where
  "handles_ok h s =
     list_all (\<lambda>p. h_path (snd p) = fst p
                  \<and> h_path (snd p) = h_collectionPath (snd p) @ ''/'' @ to_string h (h_id (snd p)))
       (docMocks s)"

text \<open>\<open>later h s s'\<close>: the instance \<open>s'\<close> is \<open>s\<close> after any number of calls of the
  instance's, the collection mocks', the handles', the queries' and the batch's methods,
  with any arguments.\<close>

inductive later :: "host \<Rightarrow> mock \<Rightarrow> mock \<Rightarrow> bool" for h :: host where
  later_refl: "later h s s"
| later_collection: "later h s s1 \<Longrightarrow> later h s (snd (collection path s1))"
| later_doc: "later h s s1 \<Longrightarrow> doc h path s1 = Inr (dh, s2) \<Longrightarrow> later h s s2"
| later_coll_doc: "later h s s1 \<Longrightarrow> later h s (snd (coll_doc h rnd cm docId s1))"
| later_coll_add: "later h s s1 \<Longrightarrow> later h s (snd (coll_add h rnd cm data s1))"
| later_query_get: "later h s s1 \<Longrightarrow> later h s (snd (query_get h q s1))"
| later_handle_get: "later h s s1 \<Longrightarrow> later h s (snd (handle_get h dh s1))"
| later_handle_set: "later h s s1 \<Longrightarrow> later h s (snd (handle_set h dh data opts s1))"
| later_handle_update: "later h s s1 \<Longrightarrow> later h s (snd (handle_update h dh data s1))"
| later_handle_delete: "later h s s1 \<Longrightarrow> later h s (snd (handle_delete h dh s1))"
| later_handle_collection: "later h s s1 \<Longrightarrow> later h s (snd (handle_collection dh sub s1))"
| later_batch_set: "later h s s1 \<Longrightarrow> later h s (batch_set dh data opts s1)"
| later_batch_update: "later h s s1 \<Longrightarrow> later h s (batch_update dh data s1)"
| later_batch_delete: "later h s s1 \<Longrightarrow> later h s (batch_delete dh s1)"
| later_commit: "later h s s1 \<Longrightarrow> later h s (snd (commit s1))"

text \<open>What every operation keeps: the handles already in the memo table, and the two
  invariants of the tables.\<close>

definition keeps :: "host \<Rightarrow> mock \<Rightarrow> mock \<Rightarrow> bool" where
  "keeps h s s' =
     ((\<forall>k v. map_of (docMocks s) k = Some v \<longrightarrow> map_of (docMocks s') k = Some v)
      \<and> (registry_ok s \<longrightarrow> registry_ok s')
      \<and> (handles_ok h s \<longrightarrow> handles_ok h s'))"




section \<open>Properties\<close>

subsection \<open>Lookup after an assignment\<close>

lemma map_of_obj_replace:
  "map_of (obj_replace k v ob) x =
     (if x = k \<and> k \<in> set (map fst ob) then Some v else map_of ob x)"
  by (induction ob) (auto simp: rev_image_eqI)

lemma map_of_obj_insert_index:
  "k \<notin> set (map fst ob) \<Longrightarrow>
   map_of (obj_insert_index k v ob) x = (if x = k then Some v else map_of ob x)"
  by (induction ob) auto

lemma map_of_snoc:
  "k \<notin> set (map fst ob) \<Longrightarrow>
   map_of (ob @ [(k, v)]) x = (if x = k then Some v else map_of ob x)"
  by (induction ob) auto

lemma map_of_obj_put: "map_of (obj_put k v ob) x = (if x = k then Some v else map_of ob x)"
  unfolding obj_put_def
  by (simp add: map_of_obj_replace map_of_obj_insert_index map_of_snoc del: set_map map_of_append)

lemma map_of_map_put: "map_of (map_put k v m) x = (if x = k then Some v else map_of m x)"
  unfolding map_put_def
  by (simp add: map_of_obj_replace map_of_snoc del: set_map map_of_append)

subsection \<open>Splitting a path\<close>

lemma js_split_no_sep: "sep \<notin> set cs \<Longrightarrow> js_split sep cs = [cs]"
  by (induction cs) auto

lemma js_split_append:
  "sep \<notin> set c \<Longrightarrow> js_split sep (c @ sep # r) = c # js_split sep r"
  by (induction c) auto

lemma js_split_parts_no_sep: "p \<in> set (js_split sep cs) \<Longrightarrow> sep \<notin> set p"
  by (induction cs arbitrary: p) (auto split: if_splits list.splits)

subsection \<open>The memo table of handles\<close>


lemma getDocMock_registered:
  "getDocMock h c d s = (dh, s') \<Longrightarrow>
   map_of (docMocks s') (c @ ''/'' @ to_string h d) = Some dh"
  unfolding getDocMock_def
  by (auto simp: Let_def map_of_map_put split: option.splits)

subsection \<open>Filters\<close>

lemma date_switch_unrecognized: "opr \<notin> set recognized_ops \<Longrightarrow> date_switch opr a b = False"
  by (simp add: recognized_ops_def date_switch_def)

lemma raw_switch_unrecognized: "opr \<notin> set recognized_ops \<Longrightarrow> raw_switch h opr a b = False"
  by (simp add: recognized_ops_def raw_switch_def)

lemma filter_pred_unrecognized:
  "f_op f \<notin> set recognized_ops \<Longrightarrow> filter_pred h f d = False"
  by (simp add: filter_pred_def Let_def date_switch_unrecognized raw_switch_unrecognized
      split: jsval.splits)

lemma apply_filters_Nil: "apply_filters h fs [] = []"
  by (induction fs) (simp_all add: apply_filters_def)

lemma apply_filters_Cons:
  "apply_filters h (f # fs) ds = apply_filters h fs (filter (filter_pred h f) ds)"
  by (simp add: apply_filters_def)

lemma apply_filters_dead:
  "f \<in> set fs \<Longrightarrow> (\<And>d. \<not> filter_pred h f d) \<Longrightarrow> apply_filters h fs ds = []"
proof (induction fs arbitrary: ds)
  case Nil
  then show ?case by simp
next
  case (Cons g gs)
  show ?case
  proof (cases "g = f")
    case True
    have "filter (filter_pred h g) ds = []" using Cons.prems(2) True by simp
    then show ?thesis by (simp add: apply_filters_Cons apply_filters_Nil)
  next
    case False
    then have "f \<in> set gs" using Cons.prems(1) by simp
    then show ?thesis using Cons.IH Cons.prems(2) by (simp add: apply_filters_Cons)
  qed
qed

lemma js_sort_Nil: "js_sort cmp [] = []"
  by (simp add: js_sort_def)

lemma js_slice0_Nil: "js_slice0 n [] = []"
  by (simp add: js_slice0_def)

subsection \<open>Writes through a handle\<close>

lemma obj_assign_Cons: "obj_assign t ((a, b) # ps) = obj_assign (obj_put a b t) ps"
  by (simp add: obj_assign_def)

lemma map_of_obj_assign:
  "distinct (map fst src) \<Longrightarrow>
   map_of (obj_assign t src) k = (case map_of src k of Some v \<Rightarrow> Some v | None \<Rightarrow> map_of t k)"
proof (induction src arbitrary: t)
  case Nil
  then show ?case by (simp add: obj_assign_def)
next
  case (Cons p ps)
  obtain a b where p: "p = (a, b)" by (cases p)
  have none: "map_of ps a = None"
    using Cons.prems p by (simp add: map_of_eq_None_iff)
  have ih: "map_of (obj_assign (obj_put a b t) ps) k
              = (case map_of ps k of Some v \<Rightarrow> Some v | None \<Rightarrow> map_of (obj_put a b t) k)"
    using Cons.IH Cons.prems by simp
  show ?case
  proof (cases "k = a")
    case True
    then show ?thesis using ih none by (simp add: p obj_assign_Cons map_of_obj_put split: option.splits)
  next
    case False
    then show ?thesis using ih by (simp add: p obj_assign_Cons map_of_obj_put split: option.splits)
  qed
qed

lemma store_doc_write_doc:
  "map_of (dbData s) c \<noteq> None \<Longrightarrow> store_doc (write_doc c d v s) c d = Some v"
  by (auto simp: store_doc_def write_doc_def map_of_obj_put)

lemma ensure_collection_present: "map_of (dbData (ensure_collection c s)) c \<noteq> None"
  by (auto simp: ensure_collection_def map_of_obj_put split: option.splits)

lemma handle_set_plain:
  "\<not> merge_on opts \<Longrightarrow>
   store_doc (snd (handle_set h dh A opts s)) (h_collectionPath dh) (doc_key h dh) = Some A"
  by (simp add: handle_set_def Let_def store_doc_write_doc ensure_collection_present)

lemma store_doc_ensure_collection:
  "store_doc (ensure_collection c s) c' d = store_doc s c' d"
  by (auto simp: store_doc_def ensure_collection_def map_of_obj_put split: option.splits)

lemma handle_set_merge:
  "merge_on opts \<Longrightarrow> store_doc s (h_collectionPath dh) (doc_key h dh) = Some E \<Longrightarrow>
   store_doc (snd (handle_set h dh B opts s)) (h_collectionPath dh) (doc_key h dh)
     = Some (obj_assign (obj_assign [] E) B)"
  by (simp add: handle_set_def Let_def store_doc_write_doc ensure_collection_present
      store_doc_ensure_collection)

subsection \<open>Evaluation of a query\<close>

lemma make_entries_props:
  "make_entries h p ds s = (es, s') \<Longrightarrow>
   length es = length ds \<and> map e_id es = map (field_get ''id'') ds
     \<and> map e_data es = map (obj_delete ''id'') ds"
proof (induction ds arbitrary: s es s')
  case Nil
  then show ?case by simp
next
  case (Cons d ds)
  obtain r s1 where g: "getDocMock h p (field_get ''id'' d) s = (r, s1)"
    by (cases "getDocMock h p (field_get ''id'' d) s")
  obtain es1 s2 where m: "make_entries h p ds s1 = (es1, s2)"
    by (cases "make_entries h p ds s1")
  have "es = \<lparr>e_id = field_get ''id'' d, e_data = obj_delete ''id'' d, e_exists = True,
               e_ref = r\<rparr> # es1"
    using Cons.prems g m by (simp add: Let_def)
  then show ?case using Cons.IH[OF m] by simp
qed

lemma make_entries_length: "length (fst (make_entries h p ds s)) = length ds"
  by (cases "make_entries h p ds s") (simp add: make_entries_props)

lemma make_entries_ids:
  "map e_id (fst (make_entries h p ds s)) = map (field_get ''id'') ds"
  by (cases "make_entries h p ds s") (simp add: make_entries_props)

lemma make_entries_data:
  "map e_data (fst (make_entries h p ds s)) = map (obj_delete ''id'') ds"
  by (cases "make_entries h p ds s") (simp add: make_entries_props)

lemma make_entries_take:
  "fst (make_entries h p (take k ds) s) = take k (fst (make_entries h p ds s))"
proof (induction ds arbitrary: k s)
  case Nil
  then show ?case by simp
next
  case (Cons d ds)
  show ?case
  proof (cases k)
    case 0
    then show ?thesis by simp
  next
    case (Suc j)
    obtain r s1 where g: "getDocMock h p (field_get ''id'' d) s = (r, s1)"
      by (cases "getDocMock h p (field_get ''id'' d) s")
    obtain es1 s2 where m: "make_entries h p ds s1 = (es1, s2)"
      by (cases "make_entries h p ds s1")
    obtain es3 s3 where m3: "make_entries h p (take j ds) s1 = (es3, s3)"
      by (cases "make_entries h p (take j ds) s1")
    have "es3 = take j es1" using Cons.IH[of j s1] m m3 by simp
    then show ?thesis using Suc g m m3 by (simp add: Let_def)
  qed
qed

lemma make_entries_slice:
  "fst (make_entries h p (js_slice0 n ds) s) = js_slice0 n (fst (make_entries h p ds s))"
  by (simp add: js_slice0_def make_entries_take make_entries_length)

lemma query_get_docs:
  "qs_docs (awaited (fst (query_get h q s)))
     = fst (make_entries h (q_collectionPath q)
              (apply_limit (q_limit q)
                 (apply_orderBy h (q_orderBy q)
                    (apply_filters h (q_filters q) (load_docs s (q_collectionPath q))))) s)"
  by (simp add: query_get_def Let_def split: prod.splits)

lemma limit_is_prefix:
  "qs_docs (awaited (fst (query_get h (q\<lparr>q_limit := Some n\<rparr>) s)))
     = js_slice0 n (qs_docs (awaited (fst (query_get h (q\<lparr>q_limit := None\<rparr>) s))))"
  by (simp add: query_get_docs apply_limit_def make_entries_slice)

lemma not_index_name [simp]: "\<not> is_array_index ''name''" "\<not> is_array_index ''order''"
  by (simp_all add: is_array_index_def is_digit_def)

lemma example_order:
  assumes "map_of (dbData s) p = Some [(i1, docA), (i2, docB), (i3, docC)]"
    and "c_path cm = p"
  shows "map e_id (qs_docs (awaited (fst (query_get h
            (query_limit (query_orderBy (createQueryChain cm) ''order'' ''asc'') 2) s))))
          = [Str i2, Str i3]
       \<and> map e_data (qs_docs (awaited (fst (query_get h
            (query_limit (query_orderBy (createQueryChain cm) ''order'' ''asc'') 2) s))))
          = [docB, docC]"
proof -
  let ?q = "query_limit (query_orderBy (createQueryChain cm) ''order'' ''asc'') 2"
  have "apply_limit (q_limit ?q)
          (apply_orderBy h (q_orderBy ?q)
             (apply_filters h (q_filters ?q) (load_docs s (q_collectionPath ?q))))
        = [(''id'', Str i2) # docB, (''id'', Str i3) # docC]"
    using assms
    by (simp add: query_limit_def
      query_orderBy_def createQueryChain_def apply_limit_def apply_orderBy_def
      apply_filters_def load_docs_def docA_def docB_def docC_def obj_assign_def obj_put_def
      js_sort_def compare_docs_def field_get_def js_lt_def js_slice0_def)
  then show ?thesis
    by (simp add: query_get_docs make_entries_ids make_entries_data field_get_def obj_delete_def
        docB_def docC_def del: make_entries.simps)
qed

lemma query_get_size:
  "qs_size (awaited (fst (query_get h q s)))
     = length (apply_limit (q_limit q)
                 (apply_orderBy h (q_orderBy q)
                    (apply_filters h (q_filters q) (load_docs s (q_collectionPath q)))))"
proof -
  let ?ds = "apply_limit (q_limit q)
                 (apply_orderBy h (q_orderBy q)
                    (apply_filters h (q_filters q) (load_docs s (q_collectionPath q))))"
  obtain es s' where m: "make_entries h (q_collectionPath q) ?ds s = (es, s')"
    by (cases "make_entries h (q_collectionPath q) ?ds s")
  have "length es = length ?ds" using make_entries_props[OF m] by simp
  then show ?thesis using m by (simp add: query_get_def Let_def)
qed

lemma not_index_eventDate: "\<not> is_array_index ''eventDate''"
  by (simp add: is_array_index_def is_digit_def)

lemma timestamp_le_date:
  "field_get ''eventDate'' d = TStamp (Some t) \<Longrightarrow>
   filter_pred h \<lparr>f_field = ''eventDate'', f_op = ''<='', f_value = DateV (Some today)\<rparr> d
     = (t \<le> today)"
  by (simp add: filter_pred_def toDate_def date_switch_def time_le_def)

subsection \<open>The handle reached by descent\<close>

lemma post1_by_descent_eq:
  "post1_by_descent =
     (\<lparr>h_ref = 3, h_id = Str ''post1'', h_collectionPath = ''users/user1/posts'',
        h_path = ''users/user1/posts/post1''\<rparr>,
      \<lparr>dbData = posts_db, operations = [],
        collectionMocks = [(''users'', \<lparr>c_ref = 0, c_path = ''users''\<rparr>),
                           (''users/user1/posts'', \<lparr>c_ref = 2, c_path = ''users/user1/posts''\<rparr>)],
        docMocks = [(''users/user1'', \<lparr>h_ref = 1, h_id = Str ''user1'', h_collectionPath = ''users'',
                                        h_path = ''users/user1''\<rparr>),
                    (''users/user1/posts/post1'',
                       \<lparr>h_ref = 3, h_id = Str ''post1'', h_collectionPath = ''users/user1/posts'',
                         h_path = ''users/user1/posts/post1''\<rparr>)],
        next_ref = 4\<rparr>)"
  by (simp add: post1_by_descent_def collection_def getCollectionMock_def mock_of_def
      coll_doc_def str_truthy_def key_of_def getDocMock_def map_put_def handle_collection_def
      Let_def)

subsection \<open>The memo tables and the entries of a query\<close>


lemma map_put_absent: "map_of m k = None \<Longrightarrow> map_put k v m = m @ [(k, v)]"
  by (simp add: map_put_def map_of_eq_None_iff)


lemma getCollectionMock_again:
  "getCollectionMock p s = (cm, s') \<Longrightarrow> getCollectionMock p s' = (cm, s')"
  unfolding getCollectionMock_def
  by (auto simp: Let_def map_of_map_put split: option.splits)


lemma getDocMock_found:
  "map_of (docMocks s) (c @ ''/'' @ to_string h d) = Some dh \<Longrightarrow> getDocMock h c d s = (dh, s)"
  by (simp add: getDocMock_def Let_def)


lemma set_apply_filters: "set (apply_filters h fs ds) \<subseteq> set ds"
proof (induction fs arbitrary: ds)
  case Nil
  then show ?case by (simp add: apply_filters_def)
next
  case (Cons f fs)
  have "set (apply_filters h fs (filter (filter_pred h f) ds)) \<subseteq> set (filter (filter_pred h f) ds)"
    using Cons.IH .
  then show ?case by (auto simp: apply_filters_Cons)
qed

lemma set_insert_sorted: "set (insert_sorted cmp x ys) = insert x (set ys)"
  by (induction ys) auto

lemma set_js_sort: "set (js_sort cmp xs) = set xs"
  by (induction xs) (simp_all add: js_sort_def set_insert_sorted)

lemma set_js_slice0: "set (js_slice0 n xs) \<subseteq> set xs"
  by (simp add: js_slice0_def set_take_subset)

lemma set_query_docs:
  "set (apply_limit lim (apply_orderBy h ob (apply_filters h fs ds))) \<subseteq> set ds"
proof -
  have "set (apply_limit lim (apply_orderBy h ob (apply_filters h fs ds)))
          \<subseteq> set (apply_orderBy h ob (apply_filters h fs ds))"
    by (cases lim) (simp_all add: apply_limit_def set_js_slice0)
  also have "\<dots> = set (apply_filters h fs ds)"
    by (simp add: apply_orderBy_def set_js_sort split: option.splits)
  also have "\<dots> \<subseteq> set ds" by (rule set_apply_filters)
  finally show ?thesis .
qed











lemma collectionMocks_store_ops:
  "collectionMocks (ensure_collection c s) = collectionMocks s"
  "collectionMocks (write_doc c d v s) = collectionMocks s"
  "collectionMocks (delete_doc c d s) = collectionMocks s"
  by (simp_all add: ensure_collection_def write_doc_def delete_doc_def split: option.splits)

lemma collectionMocks_apply_op: "collectionMocks (apply_op bop s) = collectionMocks s"
  by (cases bop)
     (simp_all add: apply_op_def Let_def collectionMocks_store_ops split: option.splits)

lemma collectionMocks_fold_apply_op: "collectionMocks (fold apply_op ops s) = collectionMocks s"
  by (induction ops arbitrary: s) (simp_all add: collectionMocks_apply_op)

subsection \<open>What later calls keep\<close>

lemma keeps_refl: "keeps h s s"
  by (simp add: keeps_def)

lemma keeps_trans: "keeps h s s1 \<Longrightarrow> keeps h s1 s2 \<Longrightarrow> keeps h s s2"
  by (simp add: keeps_def)

lemma keeps_same_tables:
  "docMocks s' = docMocks s \<Longrightarrow> collectionMocks s' = collectionMocks s \<Longrightarrow> keeps h s s'"
  by (simp add: keeps_def registry_ok_def handles_ok_def)

lemma docMocks_store_ops:
  "docMocks (ensure_collection c s) = docMocks s"
  "docMocks (write_doc c d v s) = docMocks s"
  "docMocks (delete_doc c d s) = docMocks s"
  by (simp_all add: ensure_collection_def write_doc_def delete_doc_def split: option.splits)

lemma docMocks_apply_op: "docMocks (apply_op bop s) = docMocks s"
  by (cases bop)
     (simp_all add: apply_op_def Let_def docMocks_store_ops split: option.splits)

lemma docMocks_fold_apply_op: "docMocks (fold apply_op ops s) = docMocks s"
  by (induction ops arbitrary: s) (simp_all add: docMocks_apply_op)

lemma keeps_getDocMock: "keeps h s (snd (getDocMock h c d s))"
proof (cases "map_of (docMocks s) (c @ ''/'' @ to_string h d)")
  case None
  let ?new = "\<lparr>h_ref = next_ref s, h_id = d, h_collectionPath = c,
                h_path = c @ ''/'' @ to_string h d\<rparr>"
  have absent: "c @ ''/'' @ to_string h d \<notin> set (map fst (docMocks s))"
    using None by (simp add: map_of_eq_None_iff)
  have tables: "docMocks (snd (getDocMock h c d s))
                  = docMocks s @ [(c @ ''/'' @ to_string h d, ?new)]"
    "collectionMocks (snd (getDocMock h c d s)) = collectionMocks s"
    using None by (simp_all add: getDocMock_def Let_def map_put_absent)
  have "map_of (docMocks (snd (getDocMock h c d s))) k = Some v"
    if "map_of (docMocks s) k = Some v" for k v
    using that absent None unfolding tables(1)
    by (simp only: map_of_snoc[OF absent]) auto
  then show ?thesis
    unfolding keeps_def registry_ok_def handles_ok_def tables by simp
next
  case (Some found)
  then show ?thesis by (simp add: getDocMock_def Let_def keeps_refl)
qed

lemma keeps_getCollectionMock: "keeps h s (snd (getCollectionMock p s))"
proof (cases "map_of (collectionMocks s) p")
  case None
  then show ?thesis
    by (simp add: getCollectionMock_def Let_def keeps_def registry_ok_def handles_ok_def
        map_put_absent)
next
  case (Some found)
  then show ?thesis by (simp add: getCollectionMock_def keeps_refl)
qed

lemma keeps_make_entries: "keeps h s (snd (make_entries h p ds s))"
proof (induction ds arbitrary: s)
  case Nil
  then show ?case by (simp add: keeps_refl)
next
  case (Cons d ds)
  obtain r s1 where g: "getDocMock h p (field_get ''id'' d) s = (r, s1)"
    by (cases "getDocMock h p (field_get ''id'' d) s")
  obtain es1 s2 where m: "make_entries h p ds s1 = (es1, s2)"
    by (cases "make_entries h p ds s1")
  have "keeps h s s1" using keeps_getDocMock[of h s p "field_get ''id'' d"] g by simp
  moreover have "keeps h s1 s2" using Cons.IH[of s1] m by simp
  ultimately have "keeps h s s2" by (rule keeps_trans)
  then show ?case using g m by (simp add: Let_def)
qed

lemma keeps_query_get: "keeps h s (snd (query_get h q s))"
proof -
  let ?ds = "apply_limit (q_limit q) (apply_orderBy h (q_orderBy q)
          (apply_filters h (q_filters q) (load_docs s (q_collectionPath q))))"
  have "snd (query_get h q s) = snd (make_entries h (q_collectionPath q) ?ds s)"
    by (cases "make_entries h (q_collectionPath q) ?ds s") (simp add: query_get_def Let_def)
  then show ?thesis using keeps_make_entries[of h s "q_collectionPath q" ?ds] by simp
qed

lemma keeps_handle_ops:
  "keeps h s (snd (handle_set h dh data opts s))"
  "keeps h s (snd (handle_update h dh data s))"
  "keeps h s (snd (handle_delete h dh s))"
  "keeps h s (batch_set dh data opts s)"
  "keeps h s (batch_update dh data s)"
  "keeps h s (batch_delete dh s)"
  "keeps h s (snd (commit s))"
  by (rule keeps_same_tables;
      simp add: handle_set_def handle_update_def handle_delete_def batch_set_def
        batch_update_def batch_delete_def commit_def Let_def docMocks_store_ops
        collectionMocks_store_ops docMocks_fold_apply_op collectionMocks_fold_apply_op
      split: option.splits)+

lemma keeps_handle_get: "keeps h s (snd (handle_get h dh s))"
  using keeps_getDocMock[of h s "h_collectionPath dh" "h_id dh"]
  by (cases "getDocMock h (h_collectionPath dh) (h_id dh) s") (simp add: handle_get_def Let_def)

lemma keeps_coll_add: "keeps h s (snd (coll_add h rnd cm data s))"
proof -
  let ?s1 = "write_doc (c_path cm) (''new-doc-'' @ rnd) data (ensure_collection (c_path cm) s)"
  have "keeps h s ?s1"
    by (rule keeps_same_tables) (simp_all add: docMocks_store_ops collectionMocks_store_ops)
  moreover have "keeps h ?s1 (snd (getDocMock h (c_path cm) (Str (''new-doc-'' @ rnd)) ?s1))"
    by (rule keeps_getDocMock)
  ultimately have "keeps h s (snd (getDocMock h (c_path cm) (Str (''new-doc-'' @ rnd)) ?s1))"
    by (rule keeps_trans)
  then show ?thesis
    by (cases "getDocMock h (c_path cm) (Str (''new-doc-'' @ rnd)) ?s1")
       (simp add: coll_add_def Let_def)
qed

lemma keeps_doc: "doc h path s = Inr (dh, s') \<Longrightarrow> keeps h s s'"
  using keeps_getDocMock[of h s]
  by (auto simp: doc_def Let_def split: if_splits) (metis snd_conv)

lemma later_keeps: "later h s s' \<Longrightarrow> keeps h s s'"
proof (induction rule: later.induct)
  case (later_refl s)
  then show ?case by (rule keeps_refl)
next
  case (later_collection s s1 path)
  show ?case
    by (rule keeps_trans[OF later_collection.IH]) (simp add: collection_def keeps_getCollectionMock)
next
  case (later_doc s s1 path dh s2)
  show ?case
    by (rule keeps_trans[OF later_doc.IH]) (rule keeps_doc[OF later_doc.hyps(2)])
next
  case (later_coll_doc s s1 rnd cm docId)
  show ?case
    by (rule keeps_trans[OF later_coll_doc.IH]) (simp add: coll_doc_def Let_def keeps_getDocMock)
next
  case (later_coll_add s s1 rnd cm data)
  show ?case by (rule keeps_trans[OF later_coll_add.IH]) (rule keeps_coll_add)
next
  case (later_query_get s s1 q)
  show ?case by (rule keeps_trans[OF later_query_get.IH]) (rule keeps_query_get)
next
  case (later_handle_get s s1 dh)
  show ?case by (rule keeps_trans[OF later_handle_get.IH]) (rule keeps_handle_get)
next
  case (later_handle_set s s1 dh data opts)
  show ?case by (rule keeps_trans[OF later_handle_set.IH]) (rule keeps_handle_ops)
next
  case (later_handle_update s s1 dh data)
  show ?case by (rule keeps_trans[OF later_handle_update.IH]) (rule keeps_handle_ops)
next
  case (later_handle_delete s s1 dh)
  show ?case by (rule keeps_trans[OF later_handle_delete.IH]) (rule keeps_handle_ops)
next
  case (later_handle_collection s s1 dh sub)
  show ?case
    by (rule keeps_trans[OF later_handle_collection.IH])
       (simp add: handle_collection_def keeps_getCollectionMock)
next
  case (later_batch_set s s1 dh data opts)
  show ?case by (rule keeps_trans[OF later_batch_set.IH]) (rule keeps_handle_ops)
next
  case (later_batch_update s s1 dh data)
  show ?case by (rule keeps_trans[OF later_batch_update.IH]) (rule keeps_handle_ops)
next
  case (later_batch_delete s s1 dh)
  show ?case by (rule keeps_trans[OF later_batch_delete.IH]) (rule keeps_handle_ops)
next
  case (later_commit s s1)
  show ?case by (rule keeps_trans[OF later_commit.IH]) (rule keeps_handle_ops)
qed

lemma handles_ok_mock_of: "handles_ok h (mock_of db)"
  by (simp add: handles_ok_def mock_of_def)

lemma unique_split:
  "sep \<notin> set c \<Longrightarrow> sep \<notin> set d \<Longrightarrow> cp @ sep # x = c @ sep # d \<Longrightarrow> cp = c \<and> x = d"
proof (induction c arbitrary: cp)
  case Nil
  then show ?case by (cases cp) auto
next
  case (Cons a c)
  then show ?case by (cases cp) auto
qed

lemma handles_ok_lookup:
  "handles_ok h s \<Longrightarrow> map_of (docMocks s) k = Some dh \<Longrightarrow>
   h_path dh = k \<and> k = h_collectionPath dh @ ''/'' @ to_string h (h_id dh)"
proof -
  assume ok: "handles_ok h s" and m: "map_of (docMocks s) k = Some dh"
  have "(k, dh) \<in> set (docMocks s)" using m by (rule map_of_SomeD)
  then show ?thesis using ok by (fastforce simp: handles_ok_def list_all_iff)
qed

lemma keeps_lookup:
  "keeps h s s' \<Longrightarrow> map_of (docMocks s) k = Some v \<Longrightarrow> map_of (docMocks s') k = Some v"
  by (simp add: keeps_def)








section \<open>The claims\<close>

text \<open>
  C4. Whatever the store holds, a query whose chain contains a filter with an operator
  that is none of the recognized ones resolves to a snapshot without entries: \<open>size\<close> is
  0 and \<open>empty\<close> is true, whatever the field, the comparison value, the other filters, the
  ordering and the limit. No handle is created.
\<close>

theorem unrecognized_operator_matches_nothing:
  assumes "f \<in> set (q_filters q)" and "f_op f \<notin> set recognized_ops"
  shows "query_get h q s = (Resolved \<lparr>qs_docs = [], qs_empty = True, qs_size = 0\<rparr>, s)"
proof -
  have dead: "\<And>d. \<not> filter_pred h f d"
    using assms(2) filter_pred_unrecognized by blast
  have "apply_filters h (q_filters q) (load_docs s (q_collectionPath q)) = []"
    using assms(1) dead by (rule apply_filters_dead)
  then show ?thesis
    by (simp add: query_get_def apply_orderBy_def apply_limit_def js_sort_Nil js_slice0_Nil
        split: option.splits)
qed

theorem unrecognized_operator_matches_nothing_witness:
  "query_get host0
     (query_where (createQueryChain \<lparr>c_ref = 0, c_path = ''users''\<rparr>)
        ''role'' ''contains'' (Str ''admin''))
     (mock_of users_db)
   = (Resolved \<lparr>qs_docs = [], qs_empty = True, qs_size = 0\<rparr>, mock_of users_db)"
  using unrecognized_operator_matches_nothing
    [of "\<lparr>f_field = ''role'', f_op = ''contains'', f_value = Str ''admin''\<rparr>"
        "query_where (createQueryChain \<lparr>c_ref = 0, c_path = ''users''\<rparr>)
           ''role'' ''contains'' (Str ''admin'')"
        host0 "mock_of users_db"]
  by (simp add: query_where_def createQueryChain_def recognized_ops_def)

text \<open>
  C9. When splitting the path on \<open>/\<close> leaves the first or the second part missing or
  empty, the instance's \<open>doc(path)\<close> throws the invalid-path error: the result is the
  error itself, not a promise, and no state comes back changed. For a path
  \<open>collectionSegment/docId\<close> with both segments non-empty it returns a handle, the one
  the memo table then holds under that path.
\<close>

theorem doc_invalid_path_throws:
  "((nth_opt (js_split CHR ''/'' path) 0 = None \<or> nth_opt (js_split CHR ''/'' path) 0 = Some []
      \<or> nth_opt (js_split CHR ''/'' path) 1 = None \<or> nth_opt (js_split CHR ''/'' path) 1 = Some [])
     \<longrightarrow> doc h path s = Inl (Error (''Invalid document path provided to mock: '' @ path)))
   \<and> (c \<noteq> [] \<and> d \<noteq> [] \<and> CHR ''/'' \<notin> set c \<and> CHR ''/'' \<notin> set d
     \<longrightarrow> (\<exists>dh s'. doc h (c @ ''/'' @ d) s = Inr (dh, s')
            \<and> map_of (docMocks s') (c @ ''/'' @ d) = Some dh))"
proof (intro conjI impI)
  assume "nth_opt (js_split CHR ''/'' path) 0 = None \<or> nth_opt (js_split CHR ''/'' path) 0 = Some []
      \<or> nth_opt (js_split CHR ''/'' path) 1 = None \<or> nth_opt (js_split CHR ''/'' path) 1 = Some []"
  then show "doc h path s = Inl (Error (''Invalid document path provided to mock: '' @ path))"
    by (auto simp: doc_def Let_def str_truthy_def)
next
  assume a: "c \<noteq> [] \<and> d \<noteq> [] \<and> CHR ''/'' \<notin> set c \<and> CHR ''/'' \<notin> set d"
  then have sp: "js_split CHR ''/'' (c @ ''/'' @ d) = [c, d]"
    by (simp add: js_split_append js_split_no_sep)
  obtain dh s' where g: "getDocMock h c (Str d) s = (dh, s')"
    by (cases "getDocMock h c (Str d) s")
  have "doc h (c @ ''/'' @ d) s = Inr (dh, s')"
    using a g by (simp add: doc_def sp Let_def str_truthy_def key_of_def del: append.simps)
  moreover have "map_of (docMocks s') (c @ ''/'' @ d) = Some dh"
    using getDocMock_registered[OF g] by simp
  ultimately show "\<exists>dh s'. doc h (c @ ''/'' @ d) s = Inr (dh, s')
            \<and> map_of (docMocks s') (c @ ''/'' @ d) = Some dh" by blast
qed

theorem doc_invalid_path_throws_witness:
  "doc host0 ''users'' (mock_of users_db)
     = Inl (Error ''Invalid document path provided to mock: users'')
   \<and> doc host0 ''users/'' (mock_of users_db)
     = Inl (Error ''Invalid document path provided to mock: users/'')
   \<and> doc host0 ''/user1'' (mock_of users_db)
     = Inl (Error ''Invalid document path provided to mock: /user1'')
   \<and> doc host0 [] (mock_of users_db)
     = Inl (Error ''Invalid document path provided to mock: '')
   \<and> (\<exists>dh s'. doc host0 ''users/user1'' (mock_of users_db) = Inr (dh, s')
         \<and> map_of (docMocks s') ''users/user1'' = Some dh)"
  using doc_invalid_path_throws [of "''users''" host0 "mock_of users_db" "''users''" "''user1''"]
        doc_invalid_path_throws [of "''users/''" host0 "mock_of users_db" "''users''" "''user1''"]
        doc_invalid_path_throws [of "''/user1''" host0 "mock_of users_db" "''users''" "''user1''"]
        doc_invalid_path_throws [of "[]" host0 "mock_of users_db" "''users''" "''user1''"]
  by simp

text \<open>
  C5. On any handle, \<open>set(A)\<close> followed by \<open>set(B, {merge: true})\<close> leaves the spread
  \<open>{...A, ...B}\<close> stored: every key reads as in \<open>B\<close> when \<open>B\<close> has it and as in \<open>A\<close>
  otherwise. \<open>set(A)\<close> followed by \<open>set(B)\<close> without the merge option leaves exactly
  \<open>B\<close> stored. \<open>A\<close> and \<open>B\<close> are objects, so neither lists a key twice.
\<close>

theorem merge_law:
  assumes "\<not> merge_on optsA" and "merge_on optsM" and "\<not> merge_on optsB"
    and "distinct (map fst A)" and "distinct (map fst B)"
  shows "store_doc (snd (handle_set h dh B optsM (snd (handle_set h dh A optsA s))))
           (h_collectionPath dh) (doc_key h dh) = Some (obj_assign (obj_assign [] A) B)
       \<and> (\<forall>k. map_of (obj_assign (obj_assign [] A) B) k
                = (case map_of B k of Some v \<Rightarrow> Some v | None \<Rightarrow> map_of A k))
       \<and> store_doc (snd (handle_set h dh B optsB (snd (handle_set h dh A optsA s))))
           (h_collectionPath dh) (doc_key h dh) = Some B"
proof (intro conjI allI)
  show "store_doc (snd (handle_set h dh B optsM (snd (handle_set h dh A optsA s))))
           (h_collectionPath dh) (doc_key h dh) = Some (obj_assign (obj_assign [] A) B)"
    using assms(1,2) by (simp add: handle_set_merge handle_set_plain)
next
  fix k
  show "map_of (obj_assign (obj_assign [] A) B) k
          = (case map_of B k of Some v \<Rightarrow> Some v | None \<Rightarrow> map_of A k)"
    using assms(4,5) by (simp add: map_of_obj_assign split: option.splits)
next
  show "store_doc (snd (handle_set h dh B optsB (snd (handle_set h dh A optsA s))))
           (h_collectionPath dh) (doc_key h dh) = Some B"
    using assms(3) by (simp add: handle_set_plain)
qed

theorem merge_law_witness:
  "store_doc
     (snd (handle_set host0 item1_handle [(''name'', Str ''Merged Name'')]
             (Some \<lparr>opt_merge = Some True\<rparr>)
             (snd (handle_set host0 item1_handle
                     [(''name'', Str ''Old Name''), (''count'', Num 1)] None (mock_of [])))))
     ''items'' ''item1''
     = Some [(''name'', Str ''Merged Name''), (''count'', Num 1)]
   \<and> store_doc
     (snd (handle_set host0 item1_handle [(''name'', Str ''Merged Name'')] None
             (snd (handle_set host0 item1_handle
                     [(''name'', Str ''Old Name''), (''count'', Num 1)] None (mock_of [])))))
     ''items'' ''item1''
     = Some [(''name'', Str ''Merged Name'')]"
  using merge_law [of None "Some \<lparr>opt_merge = Some True\<rparr>" None
      "[(''name'', Str ''Old Name''), (''count'', Num 1)]" "[(''name'', Str ''Merged Name'')]"
      host0 item1_handle "mock_of []"]
  by (simp add: merge_on_def item1_handle_def doc_key_def obj_assign_def obj_put_def
      is_array_index_def is_digit_def)


text \<open>
  C1. The limit truncates what the ordering directive has sorted: the entries of a chain
  with limit \<open>n\<close> are \<open>slice(0, n)\<close> of the entries of the same chain without a limit,
  and their ids are those of the first \<open>n\<close> documents of the filtered set after sorting.
  For a collection whose documents named A, B, C carry \<open>order\<close> 3, 1, 2,
  \<open>orderBy('order', 'asc').limit(2).get()\<close> resolves to the documents B and C, in that
  order.
\<close>

theorem limit_applies_after_ordering:
  "qs_docs (awaited (fst (query_get h (q\<lparr>q_limit := Some n\<rparr>) s)))
     = js_slice0 n (qs_docs (awaited (fst (query_get h (q\<lparr>q_limit := None\<rparr>) s))))
   \<and> map e_id (qs_docs (awaited (fst (query_get h (q\<lparr>q_limit := Some n\<rparr>) s))))
     = map (field_get ''id'')
         (js_slice0 n (apply_orderBy h (q_orderBy q)
            (apply_filters h (q_filters q) (load_docs s (q_collectionPath q)))))
   \<and> (map_of (dbData s) p = Some [(i1, docA), (i2, docB), (i3, docC)] \<and> c_path cm = p
      \<longrightarrow> map e_id (qs_docs (awaited (fst (query_get h
            (query_limit (query_orderBy (createQueryChain cm) ''order'' ''asc'') 2) s))))
          = [Str i2, Str i3]
        \<and> map e_data (qs_docs (awaited (fst (query_get h
            (query_limit (query_orderBy (createQueryChain cm) ''order'' ''asc'') 2) s))))
          = [docB, docC])"
proof (intro conjI impI)
  show "qs_docs (awaited (fst (query_get h (q\<lparr>q_limit := Some n\<rparr>) s)))
     = js_slice0 n (qs_docs (awaited (fst (query_get h (q\<lparr>q_limit := None\<rparr>) s))))"
    by (rule limit_is_prefix)
next
  show "map e_id (qs_docs (awaited (fst (query_get h (q\<lparr>q_limit := Some n\<rparr>) s))))
     = map (field_get ''id'')
         (js_slice0 n (apply_orderBy h (q_orderBy q)
            (apply_filters h (q_filters q) (load_docs s (q_collectionPath q)))))"
    by (simp add: query_get_docs make_entries_ids apply_limit_def)
next
  assume a: "map_of (dbData s) p = Some [(i1, docA), (i2, docB), (i3, docC)] \<and> c_path cm = p"
  show "map e_id (qs_docs (awaited (fst (query_get h
            (query_limit (query_orderBy (createQueryChain cm) ''order'' ''asc'') 2) s))))
          = [Str i2, Str i3]"
    using a example_order by blast
next
  assume a: "map_of (dbData s) p = Some [(i1, docA), (i2, docB), (i3, docC)] \<and> c_path cm = p"
  show "map e_data (qs_docs (awaited (fst (query_get h
            (query_limit (query_orderBy (createQueryChain cm) ''order'' ''asc'') 2) s))))
          = [docB, docC]"
    using a example_order by blast
qed

theorem limit_applies_after_ordering_witness:
  "map e_id (qs_docs (awaited (fst (query_get host0
      (query_limit (query_orderBy (createQueryChain \<lparr>c_ref = 0, c_path = ''items''\<rparr>)
         ''order'' ''asc'') 2) (mock_of items_db)))))
     = [Str ''item2'', Str ''item3'']
   \<and> map e_data (qs_docs (awaited (fst (query_get host0
      (query_limit (query_orderBy (createQueryChain \<lparr>c_ref = 0, c_path = ''items''\<rparr>)
         ''order'' ''asc'') 2) (mock_of items_db)))))
     = [[(''name'', Str ''B''), (''order'', Num 1)], [(''name'', Str ''C''), (''order'', Num 2)]]"
  using limit_applies_after_ordering
    [where h = host0 and s = "mock_of items_db" and p = "''items''" and ?i1.0 = "''item1''"
       and ?i2.0 = "''item2''" and ?i3.0 = "''item3''"
       and cm = "\<lparr>c_ref = 0, c_path = ''items''\<rparr>"]
  by (simp add: mock_of_def items_db_def docB_def docC_def)


text \<open>
  C2. A document whose \<open>eventDate\<close> is a Timestamp passes
  \<open>where('eventDate', '<=', today)\<close>, \<open>today\<close> a native date, exactly when its instant in
  milliseconds is at most that of \<open>today\<close>. For a collection of three documents dated
  yesterday, today and tomorrow the query resolves to the first two.
\<close>

theorem date_filter_compares_instants:
  "(field_get ''eventDate'' d = TStamp (Some t) \<longrightarrow>
      filter_pred h \<lparr>f_field = ''eventDate'', f_op = ''<='', f_value = DateV (Some today)\<rparr> d
        = (t \<le> today))
   \<and> (map_of (dbData s) p =
         Some [(i1, [(''eventDate'', TStamp (Some yesterday))]),
               (i2, [(''eventDate'', TStamp (Some today))]),
               (i3, [(''eventDate'', TStamp (Some tomorrow))])]
       \<and> c_path cm = p \<and> yesterday < today \<and> today < tomorrow
      \<longrightarrow> map e_id (qs_docs (awaited (fst (query_get h
             (query_where (createQueryChain cm) ''eventDate'' ''<='' (DateV (Some today))) s))))
           = [Str i1, Str i2]
        \<and> map e_data (qs_docs (awaited (fst (query_get h
             (query_where (createQueryChain cm) ''eventDate'' ''<='' (DateV (Some today))) s))))
           = [[(''eventDate'', TStamp (Some yesterday))], [(''eventDate'', TStamp (Some today))]]
        \<and> qs_size (awaited (fst (query_get h
             (query_where (createQueryChain cm) ''eventDate'' ''<='' (DateV (Some today))) s)))
           = 2)"
proof (intro conjI impI)
  assume "field_get ''eventDate'' d = TStamp (Some t)"
  then show "filter_pred h \<lparr>f_field = ''eventDate'', f_op = ''<='', f_value = DateV (Some today)\<rparr> d
        = (t \<le> today)"
    by (rule timestamp_le_date)
next
  assume a: "map_of (dbData s) p =
         Some [(i1, [(''eventDate'', TStamp (Some yesterday))]),
               (i2, [(''eventDate'', TStamp (Some today))]),
               (i3, [(''eventDate'', TStamp (Some tomorrow))])]
       \<and> c_path cm = p \<and> yesterday < today \<and> today < tomorrow"
  let ?q = "query_where (createQueryChain cm) ''eventDate'' ''<='' (DateV (Some today))"
  have docs: "apply_limit (q_limit ?q)
          (apply_orderBy h (q_orderBy ?q)
             (apply_filters h (q_filters ?q) (load_docs s (q_collectionPath ?q))))
        = [[(''id'', Str i1), (''eventDate'', TStamp (Some yesterday))],
           [(''id'', Str i2), (''eventDate'', TStamp (Some today))]]"
    using a
    by (simp add: query_where_def createQueryChain_def apply_limit_def apply_orderBy_def
        apply_filters_def load_docs_def obj_assign_def obj_put_def not_index_eventDate
        timestamp_le_date field_get_def)
  show "map e_id (qs_docs (awaited (fst (query_get h ?q s)))) = [Str i1, Str i2]"
    using docs by (simp add: query_get_docs make_entries_ids field_get_def del: make_entries.simps)
  show "map e_data (qs_docs (awaited (fst (query_get h ?q s))))
          = [[(''eventDate'', TStamp (Some yesterday))], [(''eventDate'', TStamp (Some today))]]"
    using docs
    by (simp add: query_get_docs make_entries_data obj_delete_def del: make_entries.simps)
  show "qs_size (awaited (fst (query_get h ?q s))) = 2"
    using docs by (simp add: query_get_size)
qed

theorem date_filter_compares_instants_witness:
  "map e_id (qs_docs (awaited (fst (query_get host0
      (query_where (createQueryChain \<lparr>c_ref = 0, c_path = ''events''\<rparr>)
         ''eventDate'' ''<='' (DateV (Some 1762128000000)))
      (mock_of (events_db 1762041600000 1762128000000 1762214400000))))))
     = [Str ''event-yesterday'', Str ''event-today'']
   \<and> qs_size (awaited (fst (query_get host0
      (query_where (createQueryChain \<lparr>c_ref = 0, c_path = ''events''\<rparr>)
         ''eventDate'' ''<='' (DateV (Some 1762128000000)))
      (mock_of (events_db 1762041600000 1762128000000 1762214400000))))) = 2"
  using date_filter_compares_instants
    [where h = host0 and today = 1762128000000 and yesterday = 1762041600000
       and tomorrow = 1762214400000
       and s = "mock_of (events_db 1762041600000 1762128000000 1762214400000)"
       and p = "''events''" and ?i1.0 = "''event-yesterday''" and ?i2.0 = "''event-today''"
       and ?i3.0 = "''event-tomorrow''" and cm = "\<lparr>c_ref = 0, c_path = ''events''\<rparr>"]
  by (simp add: mock_of_def events_db_def)

text \<open>
  C3. With the operator \<open>!=\<close> and both sides dates, the claim keeps a document exactly
  when the two instants differ. The switch taken for two dates has no case for \<open>!=\<close>: a
  document whose \<open>eventDate\<close> is a Timestamp fails the filter against a native date
  whatever the two instants are. Against Timestamps for yesterday, today and tomorrow,
  \<open>where('eventDate', '!=', today)\<close> resolves to no document at all, although two of the
  instants differ from \<open>today\<close>. On raw values the same operator works:
  \<open>where('role', '!=', 'admin')\<close> resolves to the one user who is not an admin.
\<close>

theorem not_equal_on_dates_keeps_nothing:
  "filter_pred h \<lparr>f_field = ''eventDate'', f_op = ''!='', f_value = DateV b\<rparr>
       [(''id'', Str i), (''eventDate'', TStamp a)] = False
   \<and> query_get host0
     (query_where (createQueryChain \<lparr>c_ref = 0, c_path = ''events''\<rparr>)
        ''eventDate'' ''!='' (DateV (Some 1762128000000)))
     (mock_of (events_db 1762041600000 1762128000000 1762214400000))
   = (Resolved \<lparr>qs_docs = [], qs_empty = True, qs_size = 0\<rparr>,
      mock_of (events_db 1762041600000 1762128000000 1762214400000))
   \<and> map e_id (qs_docs (awaited (fst (query_get host0
        (query_where (createQueryChain \<lparr>c_ref = 0, c_path = ''users''\<rparr>)
           ''role'' ''!='' (Str ''admin''))
        (mock_of users_db)))))
     = [Str ''user2'']"
proof -
  have "apply_filters host0
          [\<lparr>f_field = ''role'', f_op = ''!='', f_value = Str ''admin''\<rparr>]
          (load_docs (mock_of users_db) ''users'')
        = [[(''id'', Str ''user2''), (''name'', Str ''Bob''), (''role'', Str ''user''),
            (''age'', Num 25)]]"
    by (simp add: apply_filters_def load_docs_def mock_of_def users_db_def obj_assign_def
        obj_put_def is_array_index_def is_digit_def filter_pred_def field_get_def toDate_def
        host0_def raw_switch_def)
  then have users: "map e_id (qs_docs (awaited (fst (query_get host0
        (query_where (createQueryChain \<lparr>c_ref = 0, c_path = ''users''\<rparr>)
           ''role'' ''!='' (Str ''admin''))
        (mock_of users_db)))))
     = [Str ''user2'']"
    by (simp add: query_get_docs make_entries_ids query_where_def createQueryChain_def
        apply_limit_def apply_orderBy_def field_get_def del: make_entries.simps)
  have "apply_filters host0
          [\<lparr>f_field = ''eventDate'', f_op = ''!='', f_value = DateV (Some 1762128000000)\<rparr>]
          (load_docs (mock_of (events_db 1762041600000 1762128000000 1762214400000)) ''events'')
        = []"
    by (simp add: apply_filters_def load_docs_def mock_of_def events_db_def obj_assign_def
        obj_put_def not_index_eventDate filter_pred_def field_get_def toDate_def
        date_switch_def)
  then have "query_get host0
     (query_where (createQueryChain \<lparr>c_ref = 0, c_path = ''events''\<rparr>)
        ''eventDate'' ''!='' (DateV (Some 1762128000000)))
     (mock_of (events_db 1762041600000 1762128000000 1762214400000))
   = (Resolved \<lparr>qs_docs = [], qs_empty = True, qs_size = 0\<rparr>,
      mock_of (events_db 1762041600000 1762128000000 1762214400000))"
    by (simp add: query_get_def query_where_def createQueryChain_def apply_limit_def
        apply_orderBy_def)
  moreover have "filter_pred h \<lparr>f_field = ''eventDate'', f_op = ''!='', f_value = DateV b\<rparr>
       [(''id'', Str i), (''eventDate'', TStamp a)] = False"
    by (simp add: filter_pred_def toDate_def date_switch_def field_get_def)
  ultimately show ?thesis using users by simp
qed


text \<open>
  C6. The handle for \<open>post1\<close> in the subcollection \<open>users/user1/posts\<close>, reached by
  descent, is handed to \<open>batch.delete\<close> and the batch is committed. \<open>commit\<close> takes the
  first two parts of the handle's path as the address: the post stays in the store and
  the document \<open>user1\<close> of \<open>users\<close> is removed. The handle's own \<open>delete()\<close> removes
  the post and leaves \<open>user1\<close> alone.
\<close>

theorem batch_delete_of_subcollection_handle:
  "(let (post1, s) = post1_by_descent;
        s' = snd (commit (batch_delete post1 s))
    in h_collectionPath post1 = ''users/user1/posts'' \<and> h_id post1 = Str ''post1''
       \<and> store_doc s ''users/user1/posts'' ''post1'' = Some [(''title'', Str ''User1 Post 1'')]
       \<and> store_doc s ''users'' ''user1'' = Some [(''name'', Str ''Alice'')]
       \<and> store_doc s' ''users/user1/posts'' ''post1'' = Some [(''title'', Str ''User1 Post 1'')]
       \<and> store_doc s' ''users'' ''user1'' = None
       \<and> store_doc (snd (handle_delete host0 post1 s)) ''users/user1/posts'' ''post1'' = None
       \<and> store_doc (snd (handle_delete host0 post1 s)) ''users'' ''user1''
            = Some [(''name'', Str ''Alice'')])"
  by (simp add: post1_by_descent_eq commit_def batch_delete_def apply_op_def key_of_def
      store_doc_def delete_doc_def obj_put_def obj_delete_def posts_db_def handle_delete_def
      doc_key_def Let_def)


text \<open>
  C7. A snapshot is taken by \<open>get()\<close> on a handle whose document exists; the document is
  then overwritten by \<open>set\<close> and after that deleted. \<open>exists\<close> of the snapshot stays
  true, while \<open>data()\<close> returns the old fields before the write, the new fields after
  it, and \<open>undefined\<close> after the delete.
\<close>

theorem snapshot_data_reads_live_store:
  "(let (p, s1) = handle_get host0 item1_handle (mock_of items_old);
        snap = awaited p;
        s2 = snd (handle_set host0 item1_handle [(''name'', Str ''New Name'')] None s1);
        s3 = snd (handle_delete host0 item1_handle s2)
    in snap_exists snap
       \<and> snap_data snap s1 = Some [(''name'', Str ''Old Name'')]
       \<and> snap_data snap s2 = Some [(''name'', Str ''New Name'')]
       \<and> snap_data snap s3 = None)"
  by (simp add: handle_get_def item1_handle_def mock_of_def items_old_def doc_key_def
      getDocMock_def map_put_def store_doc_def snap_data_def handle_set_def merge_on_def
      ensure_collection_def write_doc_def obj_put_def handle_delete_def delete_doc_def
      obj_delete_def Let_def)

text \<open>
  C10. When the path splits into three or more parts and the first two are non-empty,
  \<open>doc(path)\<close> does not throw and ignores every part past the second. It returns the
  handle the memo table holds for the first two parts: a table without one gets a new
  handle whose id is the second part, whose collection path is the first and whose path
  is the two joined by \<open>/\<close>, stored under that path; a table with one returns it and
  changes nothing. On an instance whose table is as the operations leave it the handle
  has that collection path, id and path in both cases. \<open>doc\<close> of the first two parts
  joined by \<open>/\<close> returns the same handle instance, called instead of the long path, or
  after it following any further calls on the instance.
\<close>

theorem doc_ignores_segments_past_second:
  assumes "js_split CHR ''/'' path = c # d # e # others" and "c \<noteq> []" and "d \<noteq> []"
  shows "\<exists>dh s'. doc h path s = Inr (dh, s')
           \<and> getDocMock h c (Str d) s = (dh, s')
           \<and> doc h (c @ ''/'' @ d) s = Inr (dh, s')
           \<and> map_of (docMocks s') (c @ ''/'' @ d) = Some dh
           \<and> (case map_of (docMocks s) (c @ ''/'' @ d) of
                 None \<Rightarrow>
                   dh = \<lparr>h_ref = next_ref s, h_id = Str d, h_collectionPath = c,
                         h_path = c @ ''/'' @ d\<rparr>
                   \<and> s' = s\<lparr>docMocks := docMocks s @ [(c @ ''/'' @ d, dh)],
                            next_ref := Suc (next_ref s)\<rparr>
               | Some found \<Rightarrow> dh = found \<and> s' = s)
           \<and> (handles_ok h s \<longrightarrow>
                 h_path dh = c @ ''/'' @ d \<and> h_collectionPath dh = c \<and> doc_key h dh = d
                 \<and> handles_ok h s')
           \<and> (\<forall>s2. later h s' s2 \<longrightarrow> doc h (c @ ''/'' @ d) s2 = Inr (dh, s2))"
proof -
  have "c \<in> set (js_split CHR ''/'' path)" and "d \<in> set (js_split CHR ''/'' path)"
    using assms(1) by simp_all
  then have nc: "CHR ''/'' \<notin> set c" and nd: "CHR ''/'' \<notin> set d"
    using js_split_parts_no_sep by blast+
  have sp: "js_split CHR ''/'' (c @ ''/'' @ d) = [c, d]"
    using nc nd by (simp add: js_split_append js_split_no_sep)
  obtain dh s' where g: "getDocMock h c (Str d) s = (dh, s')"
    by (cases "getDocMock h c (Str d) s")
  have short: "\<And>t. doc h (c @ ''/'' @ d) t = Inr (getDocMock h c (Str d) t)"
    using assms(2,3) by (simp add: doc_def sp Let_def str_truthy_def key_of_def del: append.simps)
  have long: "doc h path s = Inr (dh, s')"
    using assms g by (simp add: doc_def Let_def str_truthy_def key_of_def)
  have reg: "map_of (docMocks s') (c @ ''/'' @ d) = Some dh"
    using getDocMock_registered[OF g] by simp
  have shape: "(case map_of (docMocks s) (c @ ''/'' @ d) of
                 None \<Rightarrow>
                   dh = \<lparr>h_ref = next_ref s, h_id = Str d, h_collectionPath = c,
                         h_path = c @ ''/'' @ d\<rparr>
                   \<and> s' = s\<lparr>docMocks := docMocks s @ [(c @ ''/'' @ d, dh)],
                            next_ref := Suc (next_ref s)\<rparr>
               | Some found \<Rightarrow> dh = found \<and> s' = s)"
    using g by (auto simp: getDocMock_def Let_def map_put_absent split: option.splits)
  have inv: "h_path dh = c @ ''/'' @ d \<and> h_collectionPath dh = c \<and> doc_key h dh = d
                 \<and> handles_ok h s'" if ok: "handles_ok h s"
  proof -
    have ok': "handles_ok h s'"
      using keeps_getDocMock[of h s c "Str d"] g ok by (simp add: keeps_def)
    have p: "h_path dh = c @ ''/'' @ d"
      and q: "c @ ''/'' @ d = h_collectionPath dh @ ''/'' @ to_string h (h_id dh)"
      using handles_ok_lookup[OF ok' reg] by simp_all
    have "h_collectionPath dh = c \<and> to_string h (h_id dh) = d"
      using unique_split[OF nc nd, of "h_collectionPath dh" "to_string h (h_id dh)"] q by simp
    then show ?thesis using p ok' by (simp add: doc_key_def)
  qed
  have again: "doc h (c @ ''/'' @ d) s2 = Inr (dh, s2)" if l: "later h s' s2" for s2
  proof -
    have "map_of (docMocks s2) (c @ ''/'' @ to_string h (Str d)) = Some dh"
      using keeps_lookup[OF later_keeps[OF l] reg] by simp
    then have "getDocMock h c (Str d) s2 = (dh, s2)" by (rule getDocMock_found)
    then show ?thesis using short[of s2] by simp
  qed
  show ?thesis
    using g long short[of s] reg shape inv again by auto
qed

theorem doc_ignores_segments_past_second_witness:
  "doc host0 ''users/user1/posts/post1'' (mock_of users_db)
     = Inr (\<lparr>h_ref = 0, h_id = Str ''user1'', h_collectionPath = ''users'',
              h_path = ''users/user1''\<rparr>,
            \<lparr>dbData = users_db, operations = [], collectionMocks = [],
              docMocks = [(''users/user1'',
                           \<lparr>h_ref = 0, h_id = Str ''user1'', h_collectionPath = ''users'',
                             h_path = ''users/user1''\<rparr>)],
              next_ref = 1\<rparr>)
   \<and> doc host0 ''users/user1'' (mock_of users_db)
     = doc host0 ''users/user1/posts/post1'' (mock_of users_db)
   \<and> doc host0 ''users/user1''
       (snd (handle_delete host0
               \<lparr>h_ref = 0, h_id = Str ''user1'', h_collectionPath = ''users'',
                 h_path = ''users/user1''\<rparr>
               \<lparr>dbData = users_db, operations = [], collectionMocks = [],
                 docMocks = [(''users/user1'',
                              \<lparr>h_ref = 0, h_id = Str ''user1'', h_collectionPath = ''users'',
                                h_path = ''users/user1''\<rparr>)],
                 next_ref = 1\<rparr>))
     = Inr (\<lparr>h_ref = 0, h_id = Str ''user1'', h_collectionPath = ''users'',
              h_path = ''users/user1''\<rparr>,
            snd (handle_delete host0
               \<lparr>h_ref = 0, h_id = Str ''user1'', h_collectionPath = ''users'',
                 h_path = ''users/user1''\<rparr>
               \<lparr>dbData = users_db, operations = [], collectionMocks = [],
                 docMocks = [(''users/user1'',
                              \<lparr>h_ref = 0, h_id = Str ''user1'', h_collectionPath = ''users'',
                                h_path = ''users/user1''\<rparr>)],
                 next_ref = 1\<rparr>))"
proof -
  let ?dh = "\<lparr>h_ref = 0, h_id = Str ''user1'', h_collectionPath = ''users'',
              h_path = ''users/user1''\<rparr>"
  let ?s' = "\<lparr>dbData = users_db, operations = [], collectionMocks = [],
              docMocks = [(''users/user1'', ?dh)], next_ref = 1\<rparr>"
  have sp: "js_split CHR ''/'' ''users/user1/posts/post1'' = [''users'', ''user1'', ''posts'', ''post1'']"
    by simp
  obtain dh s' where
    long: "doc host0 ''users/user1/posts/post1'' (mock_of users_db) = Inr (dh, s')"
    and short: "doc host0 (''users'' @ ''/'' @ ''user1'') (mock_of users_db) = Inr (dh, s')"
    and shape: "(case map_of (docMocks (mock_of users_db)) (''users'' @ ''/'' @ ''user1'') of
                 None \<Rightarrow>
                   dh = \<lparr>h_ref = next_ref (mock_of users_db), h_id = Str ''user1'',
                         h_collectionPath = ''users'', h_path = ''users'' @ ''/'' @ ''user1''\<rparr>
                   \<and> s' = (mock_of users_db)\<lparr>docMocks := docMocks (mock_of users_db)
                                                   @ [(''users'' @ ''/'' @ ''user1'', dh)],
                            next_ref := Suc (next_ref (mock_of users_db))\<rparr>
               | Some found \<Rightarrow> dh = found \<and> s' = mock_of users_db)"
    and again: "\<forall>s2. later host0 s' s2 \<longrightarrow> doc host0 (''users'' @ ''/'' @ ''user1'') s2 = Inr (dh, s2)"
    using doc_ignores_segments_past_second[OF sp, of host0 "mock_of users_db"] by auto
  have dh: "dh = ?dh" and s': "s' = ?s'"
    using shape by (simp_all add: mock_of_def)
  have "later host0 s' (snd (handle_delete host0 ?dh s'))"
    by (rule later_handle_delete[OF later_refl])
  then have "doc host0 ''users/user1'' (snd (handle_delete host0 ?dh s'))
               = Inr (dh, snd (handle_delete host0 ?dh s'))"
    using again by simp
  then show ?thesis using long short dh s' by simp
qed




end
